theory Spec2Isabelle
  imports Complex_Main
begin

section \<open>Vectors and numeric primitives\<close>

text \<open>
  The Python sources compute on IEEE doubles; this development reads every float as a
  real number, so rounding, signed zeros, infinities and NaN are outside the model.
  A position or velocity is a Python list (or numpy array) of three numbers that the
  code reads at the indices 0, 1 and 2: a triple.
\<close>

type_synonym vec3 = "real \<times> real \<times> real"

datatype py_error = TypeError | ZeroDivisionError

text \<open>
  \<open>numpy.arctan2 y x\<close> over the reals: the angle in \<open>(-\<pi>, \<pi>]\<close> of the point
  \<open>(x, y)\<close>, and 0 at the origin.
\<close>

definition arctan2 :: "real \<Rightarrow> real \<Rightarrow> real" where
  "arctan2 y x =
     (if 0 < x then arctan (y / x)
      else if x < 0 then (if 0 \<le> y then arctan (y / x) + pi else arctan (y / x) - pi)
      else if 0 < y then pi / 2
      else if y < 0 then - (pi / 2)
      else 0)"

text \<open>\<open>numpy.degrees\<close>, \<open>numpy.hypot\<close> and the float remainder \<open>x % m\<close> (sign of the divisor).\<close>

definition degrees :: "real \<Rightarrow> real" where
  "degrees x = x * (180 / pi)"

definition hypot :: "real \<Rightarrow> real \<Rightarrow> real" where
  "hypot a b = sqrt (a * a + b * b)"

definition py_mod :: "real \<Rightarrow> real \<Rightarrow> real" where
  "py_mod x m = x - m * of_int \<lfloor>x / m\<rfloor>"

text \<open>\<open>numpy.linalg.norm\<close> of a 3-vector.\<close>

fun norm3 :: "vec3 \<Rightarrow> real" where
  "norm3 (x, y, z) = sqrt (x * x + y * y + z * z)"

text \<open>Subtraction of numpy arrays, componentwise.\<close>

fun vsub :: "vec3 \<Rightarrow> vec3 \<Rightarrow> vec3" where
  "vsub (a0, a1, a2) (b0, b1, b2) = (a0 - b0, a1 - b1, a2 - b2)"

section \<open>rot.py: rotations about the three axes\<close>

fun rot1 :: "vec3 \<Rightarrow> real \<Rightarrow> vec3" where
  "rot1 (v0, v1, v2) xval =
     (let temp = v2; c = cos xval; s = sin xval;
          o2 = c * v2 - s * v1;
          o1 = c * v1 + s * temp;
          o0 = v0
      in (o0, o1, o2))"

fun rot2 :: "vec3 \<Rightarrow> real \<Rightarrow> vec3" where
  "rot2 (v0, v1, v2) xval =
     (let temp = v2; c = cos xval; s = sin xval;
          o2 = c * v2 + s * v0;
          o0 = c * v0 - s * temp;
          o1 = v1
      in (o0, o1, o2))"

fun rot3 :: "vec3 \<Rightarrow> real \<Rightarrow> vec3" where
  "rot3 (v0, v1, v2) xval =
     (let temp = v1; c = cos xval; s = sin xval;
          o1 = c * v1 - s * v0;
          o0 = c * v0 + s * temp;
          o2 = v2
      in (o0, o1, o2))"

section \<open>cockpitview.py\<close>

fun dot_product :: "vec3 \<Rightarrow> vec3 \<Rightarrow> real" where
  "dot_product (a0, a1, a2) (b0, b1, b2) = a0 * b0 + a1 * b1 + a2 * b2"

text \<open>\<open>(v[0]**2 + v[1]**2 + v[2]**2)**0.5\<close>: the base is never negative.\<close>

fun magnitude :: "vec3 \<Rightarrow> real" where
  "magnitude (v0, v1, v2) = sqrt (v0\<^sup>2 + v1\<^sup>2 + v2\<^sup>2)"

text \<open>The longitude is brought back by one turn, once, when it lies outside \<open>[-\<pi>, \<pi>]\<close>.\<close>

definition wrap_lon :: "real \<Rightarrow> real" where
  "wrap_lon lon = (if lon < - pi then lon + 2 * pi else if lon > pi then lon - 2 * pi else lon)"

text \<open>\<open>twoecef2razel\<close> returns \<open>(rho, az, eldeg)\<close>.\<close>

definition twoecef2razel :: "vec3 \<Rightarrow> vec3 \<Rightarrow> vec3 \<Rightarrow> vec3 \<Rightarrow> real \<Rightarrow> real \<Rightarrow> real \<times> real \<times> real" where
  "twoecef2razel r1ecef v1ecef r2ecef v2ecef lat lon0 =
     (let halfpi = pi * 0.5;
          small = 0.00000001;
          lon = wrap_lon lon0;
          rhoecef = vsub r2ecef r1ecef;
          drhoecef = vsub v2ecef v1ecef;
          rho = norm3 rhoecef;
          rhosez = rot2 (rot3 rhoecef lon) (halfpi - lat);
          drhosez = rot2 (rot3 drhoecef lon) (halfpi - lat);
          temp = sqrt (fst rhosez * fst rhosez + fst (snd rhosez) * fst (snd rhosez));
          el = (if temp < small then sgn (snd (snd rhosez)) * halfpi
                else arcsin (snd (snd rhosez) / norm3 rhosez));
          eldeg = el * (180 / pi);
          az = (if temp < small
                then arctan2 (fst (snd drhosez)) (- fst drhosez) * (180 / pi)
                else arctan2 (fst (snd rhosez)) (- fst rhosez) * (180 / pi))
      in (rho, az, eldeg))"

text \<open>\<open>ecef2enu\<close> returns \<open>(east, north, up)\<close>.\<close>

fun ecef2enu :: "vec3 \<Rightarrow> real \<Rightarrow> real \<Rightarrow> vec3" where
  "ecef2enu (u, v, w) lat lon =
     (let temp = cos lon * u + sin lon * v;
          east = - sin lon * u + cos lon * v;
          up = cos lat * temp + sin lat * w;
          north = - sin lat * temp + cos lat * w
      in (east, north, up))"

fun calculate_heading_from_velocity :: "vec3 \<Rightarrow> real \<Rightarrow> real \<Rightarrow> real" where
  "calculate_heading_from_velocity (u, v, w) lat lon =
     (let temp = cos lon * u + sin lon * v;
          v_east = - sin lon * u + cos lon * v;
          v_north = - sin lat * temp + cos lat * w
      in arctan2 v_east v_north)"

fun twoecef2enu :: "vec3 \<Rightarrow> vec3 \<Rightarrow> real \<Rightarrow> real \<Rightarrow> vec3" where
  "twoecef2enu (a0, a1, a2) (s0, s1, s2) lat lon =
     (let u = s0 - a0; v = s1 - a1; w = s2 - a2;
          temp = cos lon * u + sin lon * v;
          east = - sin lon * u + cos lon * v;
          up = cos lat * temp + sin lat * w;
          north = - sin lat * temp + cos lat * w
      in (east, north, up))"

text \<open>
  \<open>twoecef2aer\<close> returns \<open>(slantRange, az, elev)\<close>. The components are scalars, so the
  masked assignment in the \<open>try\<close> block raises \<open>TypeError\<close> before it changes anything and
  the \<open>except\<close> branch does the zeroing.
\<close>

definition twoecef2aer :: "vec3 \<Rightarrow> vec3 \<Rightarrow> real \<Rightarrow> real \<Rightarrow> real \<times> real \<times> real" where
  "twoecef2aer acecef satecef lat lon =
     (case twoecef2enu acecef satecef lat lon of (e0, n0, u0) \<Rightarrow>
        let e = (if \<bar>e0\<bar> < 1 / 1000 then 0 else e0);
            n = (if \<bar>n0\<bar> < 1 / 1000 then 0 else n0);
            u = (if \<bar>u0\<bar> < 1 / 1000 then 0 else u0);
            r = hypot e n;
            slantRange = hypot r u;
            elev = arctan2 u r;
            az = py_mod (arctan2 e n) (2 * pi)
        in (slantRange, degrees az, degrees elev))"

text \<open>\<open>cockpitview\<close> returns \<open>(range, lookdeg, eldeg)\<close>.\<close>

definition cockpitview :: "vec3 \<Rightarrow> vec3 \<Rightarrow> vec3 \<Rightarrow> real \<Rightarrow> real \<Rightarrow> real \<times> real \<times> real" where
  "cockpitview r1ecef v1ecef r2ecef lat lon =
     (case twoecef2enu r1ecef r2ecef lat lon of (e, n, u) \<Rightarrow>
        let heading_radians = calculate_heading_from_velocity v1ecef lat lon;
            e_prime = e * cos (- heading_radians) + n * sin (- heading_radians);
            n_prime = - e * sin (- heading_radians) + n * cos (- heading_radians);
            u_prime = u;
            range = magnitude (e_prime, n_prime, u_prime);
            horiz_range = magnitude (e_prime, n_prime, 0);
            look = arctan2 e_prime n_prime;
            lookdeg = degrees look;
            el = arctan2 u_prime horiz_range;
            eldeg = degrees el
        in (range, lookdeg, eldeg))"

section \<open>relative.py\<close>

text \<open>
  \<open>relative.py\<close> has its own \<open>dot_product\<close> and \<open>magnitude\<close>, the same text as those of
  \<open>cockpitview.py\<close> above. Its vectors hold Python floats, so a division by a zero
  magnitude raises \<open>ZeroDivisionError\<close>.
\<close>

fun cross_product :: "vec3 \<Rightarrow> vec3 \<Rightarrow> vec3" where
  "cross_product (a0, a1, a2) (b0, b1, b2) =
     (a1 * b2 - a2 * b1, a2 * b0 - a0 * b2, a0 * b1 - a1 * b0)"

fun normalize :: "vec3 \<Rightarrow> py_error + vec3" where
  "normalize (v0, v1, v2) =
     (let mag = magnitude (v0, v1, v2)
      in if mag = 0 then Inl ZeroDivisionError else Inr (v0 / mag, v1 / mag, v2 / mag))"

text \<open>A matrix is the list of its three rows.\<close>

type_synonym mat3 = "vec3 \<times> vec3 \<times> vec3"

fun transform_vector :: "mat3 \<Rightarrow> vec3 \<Rightarrow> vec3" where
  "transform_vector (m0, m1, m2) vector =
     (dot_product m0 vector, dot_product m1 vector, dot_product m2 vector)"

fun distance :: "vec3 \<Rightarrow> vec3 \<Rightarrow> real" where
  "distance (p0, p1, p2) (q0, q1, q2) = sqrt ((q0 - p0)\<^sup>2 + (q1 - p1)\<^sup>2 + (q2 - p2)\<^sup>2)"

definition ecef_to_ntw_matrix :: "vec3 \<Rightarrow> vec3 \<Rightarrow> py_error + mat3" where
  "ecef_to_ntw_matrix r v =
     (case normalize (cross_product r v) of
        Inl err \<Rightarrow> Inl err
      | Inr n_hat \<Rightarrow>
          (case normalize v of
             Inl err \<Rightarrow> Inl err
           | Inr t_hat \<Rightarrow> Inr (n_hat, t_hat, cross_product t_hat n_hat)))"

definition angle_between_vectors :: "vec3 \<Rightarrow> vec3 \<Rightarrow> py_error + real" where
  "angle_between_vectors A B =
     (if magnitude A * magnitude B = 0 then Inl ZeroDivisionError
      else let cos_theta = dot_product A B / (magnitude A * magnitude B);
               cos_theta = max (- 1) (min 1 cos_theta);
               theta = 180 * arccos cos_theta / pi
           in Inr theta)"

text \<open>The velocities of the aircraft and of the sun are parameters that the body never reads.\<close>

definition calculate_sun_grazing_angle ::
    "vec3 \<Rightarrow> vec3 \<Rightarrow> vec3 \<Rightarrow> vec3 \<Rightarrow> vec3 \<Rightarrow> vec3 \<Rightarrow> py_error + real" where
  "calculate_sun_grazing_angle r_ac_ecef v_ac_ecef r_sun_ecef v_sun_ecef r_satellite v_satellite =
     (case ecef_to_ntw_matrix r_satellite v_satellite of
        Inl err \<Rightarrow> Inl err
      | Inr ecef_to_ntw \<Rightarrow>
          let position_sun_NTW = transform_vector ecef_to_ntw r_sun_ecef;
              position_aircraft_NTW = transform_vector ecef_to_ntw r_ac_ecef
          in (case angle_between_vectors position_sun_NTW position_aircraft_NTW of
                Inl err \<Rightarrow> Inl err
              | Inr theta_NTW \<Rightarrow> Inr ((180 - theta_NTW) / 2)))"

subsection \<open>The apparent length of a train of satellites\<close>

text \<open>
  An entry of \<open>satellite_positions\<close> is a dictionary with the keys \<open>filename\<close> and
  \<open>position\<close>. The dictionary \<open>furthest_satellites\<close> has five keys; \<open>None\<close> is the
  absent value of \<open>sat1\<close>, \<open>sat2\<close> and \<open>midpoint\<close>. The key \<open>distance\<close> is the field
  \<open>furthest_distance\<close> here, the name \<open>distance\<close> being the function's.
\<close>

record sat_info =
  filename :: string
  position :: vec3

record furthest =
  sat1 :: "nat option"
  sat2 :: "nat option"
  furthest_distance :: real
  midpoint :: "vec3 option"
  midpoint_sat :: nat

record pair_state =
  max_length_degrees_ecef :: real
  max_length_degrees_enu :: real
  furthest_satellites :: furthest

definition initial_state :: pair_state where
  "initial_state =
     \<lparr>max_length_degrees_ecef = 0, max_length_degrees_enu = 0,
      furthest_satellites =
        \<lparr>sat1 = None, sat2 = None, furthest_distance = 0, midpoint = None, midpoint_sat = 0\<rparr>\<rparr>"

text \<open>The pairs \<open>(i, j)\<close> in the order of the two nested \<open>for\<close> loops.\<close>

definition pair_indices :: "nat \<Rightarrow> (nat \<times> nat) list" where
  "pair_indices n = concat (map (\<lambda>i. map (\<lambda>j. (i, j)) [Suc i ..< n]) [0 ..< n])"

fun midpoint_of :: "vec3 \<Rightarrow> vec3 \<Rightarrow> vec3" where
  "midpoint_of (p0, p1, p2) (q0, q1, q2) = ((p0 + q0) / 2, (p1 + q1) / 2, (p2 + q2) / 2)"

text \<open>The angle, in degrees, of the clamped cosine; the caller has checked the denominator.\<close>

definition length_degrees :: "vec3 \<Rightarrow> vec3 \<Rightarrow> real" where
  "length_degrees a b =
     (let cos_theta = dot_product a b / (magnitude a * magnitude b);
          cos_theta_clamped = max (min cos_theta 1) (- 1);
          theta = arccos cos_theta_clamped
      in theta * (180 / pi))"

text \<open>One turn of the inner loop, for the pair \<open>(i, j)\<close>.\<close>

definition pair_body :: "sat_info list \<Rightarrow> vec3 \<Rightarrow> real \<Rightarrow> real \<Rightarrow> pair_state \<Rightarrow> nat \<times> nat \<Rightarrow> pair_state" where
  "pair_body satellite_positions r_ac_ecef lat lon st p =
     (case p of (i, j) \<Rightarrow>
        let pos_i = position (satellite_positions ! i);
            pos_j = position (satellite_positions ! j);
            dist = distance pos_i pos_j;
            fs = furthest_satellites st;
            fs = (if dist > furthest_distance fs
                  then fs\<lparr>furthest_distance := dist, sat1 := Some i, sat2 := Some j,
                          midpoint := Some (midpoint_of pos_i pos_j)\<rparr>
                  else fs);
            vec_a_ecef = vsub pos_i r_ac_ecef;
            vec_b_ecef = vsub pos_j r_ac_ecef;
            vec_a_enu = ecef2enu vec_a_ecef lat lon;
            vec_b_enu = ecef2enu vec_b_ecef lat lon;
            max_ecef = (if magnitude vec_a_ecef * magnitude vec_b_ecef \<noteq> 0
                        then max (max_length_degrees_ecef st) (length_degrees vec_a_ecef vec_b_ecef)
                        else max_length_degrees_ecef st);
            max_enu = (if magnitude vec_a_enu * magnitude vec_b_enu \<noteq> 0
                       then max (max_length_degrees_enu st) (length_degrees vec_a_enu vec_b_enu)
                       else max_length_degrees_enu st)
        in \<lparr>max_length_degrees_ecef = max_ecef, max_length_degrees_enu = max_enu,
            furthest_satellites = fs\<rparr>)"

definition pair_loop :: "sat_info list \<Rightarrow> vec3 \<Rightarrow> real \<Rightarrow> real \<Rightarrow> pair_state" where
  "pair_loop satellite_positions r_ac_ecef lat lon =
     foldl (pair_body satellite_positions r_ac_ecef lat lon) initial_state
       (pair_indices (length satellite_positions))"

text \<open>
  The scan for the satellite nearest the midpoint. \<open>closest_distance\<close> starts at
  \<open>float('inf')\<close>, here \<open>None\<close>. \<open>distance\<close> subscripts its second argument, which raises
  \<open>TypeError\<close> when the midpoint is still \<open>None\<close>.
\<close>

fun midpoint_scan :: "(nat \<times> sat_info) list \<Rightarrow> real option \<times> furthest \<Rightarrow> py_error + (real option \<times> furthest)" where
  "midpoint_scan [] st = Inr st"
| "midpoint_scan ((idx, satellite) # rest) (closest_distance, fs) =
     (case midpoint fs of
        None \<Rightarrow> Inl TypeError
      | Some m \<Rightarrow>
          let dist = distance (position satellite) m
          in if (case closest_distance of None \<Rightarrow> True | Some c \<Rightarrow> dist < c)
             then midpoint_scan rest (Some dist, fs\<lparr>midpoint_sat := idx\<rparr>)
             else midpoint_scan rest (closest_distance, fs))"

text \<open>
  The result is \<open>None\<close> for the tuple of six \<open>None\<close>s, and otherwise the tuple
  \<open>(max_length_degrees_ecef, max_length_degrees_enu, distanceDiff_kms,
  distance_sat1_to_mid, distance_sat2_to_mid, furthest_satellites)\<close>.
\<close>

type_synonym apparent_length = "real \<times> real \<times> real \<times> real \<times> real \<times> furthest"

definition calculate_apparent_length ::
    "sat_info list \<Rightarrow> vec3 \<Rightarrow> real \<Rightarrow> real \<Rightarrow> py_error + apparent_length option" where
  "calculate_apparent_length satellite_positions r_ac_ecef lat lon =
     (let st = pair_loop satellite_positions r_ac_ecef lat lon
      in case midpoint_scan (enumerate 0 satellite_positions) (None, furthest_satellites st) of
           Inl err \<Rightarrow> Inl err
         | Inr (closest_distance, fs) \<Rightarrow>
             (case (sat1 fs, sat2 fs) of
                (Some s1, Some s2) \<Rightarrow>
                  let distance_aircraft_to_sat1 = distance (position (satellite_positions ! s1)) r_ac_ecef;
                      distance_aircraft_to_sat2 = distance (position (satellite_positions ! s2)) r_ac_ecef;
                      distanceDiff_kms = \<bar>distance_aircraft_to_sat1 - distance_aircraft_to_sat2\<bar>;
                      distance_sat1_to_mid = distance (position (satellite_positions ! s1))
                                               (position (satellite_positions ! midpoint_sat fs));
                      distance_sat2_to_mid = distance (position (satellite_positions ! s2))
                                               (position (satellite_positions ! midpoint_sat fs))
                  in Inr (Some (max_length_degrees_ecef st, max_length_degrees_enu st, distanceDiff_kms,
                                distance_sat1_to_mid, distance_sat2_to_mid, fs))
              | _ \<Rightarrow> Inr None))"

subsection \<open>Notions for the statements about the pair loop\<close>

text \<open>
  The order of the two nested loops, ascending \<open>i\<close> and then ascending \<open>j\<close>, and the
  distance that the loop body computes for a pair of indices.
\<close>

definition before :: "nat \<times> nat \<Rightarrow> nat \<times> nat \<Rightarrow> bool" where
  "before p q = (fst p < fst q \<or> (fst p = fst q \<and> snd p < snd q))"

definition pair_distance :: "sat_info list \<Rightarrow> nat \<times> nat \<Rightarrow> real" where
  "pair_distance sats p = distance (position (sats ! fst p)) (position (sats ! snd p))"

subsection \<open>Notions for the statements about the orbital basis\<close>

text \<open>Two vectors are parallel when one is a multiple of the other.\<close>

fun scale :: "real \<Rightarrow> vec3 \<Rightarrow> vec3" where
  "scale k (v0, v1, v2) = (k * v0, k * v1, k * v2)"

definition parallel :: "vec3 \<Rightarrow> vec3 \<Rightarrow> bool" where
  "parallel r v = (\<exists>k. v = scale k r \<or> r = scale k v)"

section \<open>Rotation primitives\<close>

lemma sin_cos_sq: "sin t * sin t + cos t * cos t = (1::real)"
  using sin_cos_squared_add [of t] by (simp add: power2_eq_square)

lemma rot_undo_aux1: "c * (c * a - s * b) + s * (c * b + s * a) = (s * s + c * c) * (a::real)"
  by (simp add: algebra_simps)

lemma rot_undo_aux2: "c * (c * b + s * a) - s * (c * a - s * b) = (s * s + c * c) * (b::real)"
  by (simp add: algebra_simps)

text \<open>
  C2. Over the reals, each of \<open>rot1\<close>, \<open>rot2\<close>, \<open>rot3\<close> by an angle \<open>\<theta>\<close> followed by the
  same rotation by \<open>-\<theta>\<close> gives back the vector it started from.
\<close>

theorem rot_inverse_angle:
  "rot1 (rot1 v \<theta>) (- \<theta>) = v \<and> rot2 (rot2 v \<theta>) (- \<theta>) = v \<and> rot3 (rot3 v \<theta>) (- \<theta>) = v"
proof -
  obtain a b c where v: "v = (a, b, c)" by (cases v) auto
  have 1: "rot1 (rot1 v \<theta>) (- \<theta>) = v"
    using rot_undo_aux1 [of "cos \<theta>" c "sin \<theta>" b] rot_undo_aux2 [of "cos \<theta>" b "sin \<theta>" c]
    by (simp add: v Let_def sin_cos_sq algebra_simps)
  have 2: "rot2 (rot2 v \<theta>) (- \<theta>) = v"
    using rot_undo_aux1 [of "cos \<theta>" a "sin \<theta>" c] rot_undo_aux2 [of "cos \<theta>" c "sin \<theta>" a]
    by (simp add: v Let_def sin_cos_sq algebra_simps)
  have 3: "rot3 (rot3 v \<theta>) (- \<theta>) = v"
    using rot_undo_aux1 [of "cos \<theta>" b "sin \<theta>" a] rot_undo_aux2 [of "cos \<theta>" a "sin \<theta>" b]
    by (simp add: v Let_def sin_cos_sq algebra_simps)
  from 1 2 3 show ?thesis by simp
qed

lemma arctan2_cardinal:
  "0 < x \<Longrightarrow> arctan2 0 x = 0"
  "0 < y \<Longrightarrow> arctan2 y 0 = pi / 2"
  "x < 0 \<Longrightarrow> arctan2 0 x = pi"
  "y < 0 \<Longrightarrow> arctan2 y 0 = - (pi / 2)"
  by (simp_all add: arctan2_def)

lemma degrees_simps: "degrees 0 = 0" "degrees (pi / 2) = 90" "degrees pi = 180" "degrees (- (pi / 2)) = - 90"
  by (simp_all add: degrees_def)

section \<open>Heading\<close>

text \<open>
  C7. The heading is the two-argument arctangent of the east and north components that
  \<open>ecef2enu\<close> gives the velocity. A velocity due north (no east component) has heading
  0 degrees, due east 90 degrees, due south 180 degrees and due west -90 degrees.
\<close>

theorem heading_is_arctan2_of_enu:
  assumes "ecef2enu vecef lat lon = (east, north, up)"
  shows "calculate_heading_from_velocity vecef lat lon = arctan2 east north
       \<and> (east = 0 \<and> 0 < north \<longrightarrow> degrees (calculate_heading_from_velocity vecef lat lon) = 0)
       \<and> (0 < east \<and> north = 0 \<longrightarrow> degrees (calculate_heading_from_velocity vecef lat lon) = 90)
       \<and> (east = 0 \<and> north < 0 \<longrightarrow> degrees (calculate_heading_from_velocity vecef lat lon) = 180)
       \<and> (east < 0 \<and> north = 0 \<longrightarrow> degrees (calculate_heading_from_velocity vecef lat lon) = - 90)"
proof -
  obtain a b c where v: "vecef = (a, b, c)" by (cases vecef) auto
  have h: "calculate_heading_from_velocity vecef lat lon = arctan2 east north"
    using assms by (auto simp: v Let_def)
  show ?thesis
    unfolding h by (auto simp: arctan2_cardinal degrees_simps)
qed

theorem heading_is_arctan2_of_enu_witness:
  "degrees (calculate_heading_from_velocity (0, 0, 1) 0 0) = 0
 \<and> degrees (calculate_heading_from_velocity (0, 1, 0) 0 0) = 90
 \<and> degrees (calculate_heading_from_velocity (0, 0, - 1) 0 0) = 180
 \<and> degrees (calculate_heading_from_velocity (0, - 1, 0) 0 0) = - 90"
  using heading_is_arctan2_of_enu [of "(0, 0, 1)" 0 0 0 1 0]
        heading_is_arctan2_of_enu [of "(0, 1, 0)" 0 0 1 0 0]
        heading_is_arctan2_of_enu [of "(0, 0, - 1)" 0 0 0 "- 1" 0]
        heading_is_arctan2_of_enu [of "(0, - 1, 0)" 0 0 "- 1" 0 0]
  by (simp add: Let_def)

section \<open>Cockpit view\<close>

lemma rot_norm_sq: "(e * c - n * s)\<^sup>2 + (e * s + n * c)\<^sup>2 = (s * s + c * c) * (e\<^sup>2 + n\<^sup>2)" for e :: real
  by (simp add: power2_eq_square algebra_simps)

lemma rot_norm_sq': "(c * u + s * v)\<^sup>2 + (c * v - s * u)\<^sup>2 = (s * s + c * c) * (u\<^sup>2 + v\<^sup>2)" for u :: real
  by (simp add: power2_eq_square algebra_simps)

lemma enu_norm_sq:
  fixes u v w :: real
  assumes l: "sl * sl + cl * cl = 1" and p: "sp * sp + cp * cp = 1"
  shows "(- sl * u + cl * v)\<^sup>2 + (- sp * (cl * u + sl * v) + cp * w)\<^sup>2 + (cp * (cl * u + sl * v) + sp * w)\<^sup>2
         = u\<^sup>2 + v\<^sup>2 + w\<^sup>2"
proof -
  define t where "t = cl * u + sl * v"
  have 1: "(- sp * t + cp * w)\<^sup>2 + (cp * t + sp * w)\<^sup>2 = (sp * sp + cp * cp) * (t\<^sup>2 + w\<^sup>2)"
    by (simp add: power2_eq_square algebra_simps)
  have 2: "(- sl * u + cl * v)\<^sup>2 + t\<^sup>2 = (sl * sl + cl * cl) * (u\<^sup>2 + v\<^sup>2)"
    unfolding t_def by (simp add: power2_eq_square algebra_simps)
  have "(- sl * u + cl * v)\<^sup>2 + ((- sp * t + cp * w)\<^sup>2 + (cp * t + sp * w)\<^sup>2)
        = (- sl * u + cl * v)\<^sup>2 + t\<^sup>2 + w\<^sup>2"
    by (simp only: 1 p) simp
  also have "\<dots> = u\<^sup>2 + v\<^sup>2 + w\<^sup>2"
    by (simp only: 2 l) simp
  finally show ?thesis by (simp add: t_def)
qed

text \<open>
  C10. The range that \<open>cockpitview\<close> returns is the Euclidean norm of the target's
  position minus the observer's: neither the change to ENU nor the heading rotation
  changes the length of the vector.
\<close>

theorem cockpitview_range_is_ecef_distance:
  "fst (cockpitview r1ecef v1ecef r2ecef lat lon) = norm3 (vsub r2ecef r1ecef)"
proof -
  obtain a0 a1 a2 where a: "r1ecef = (a0, a1, a2)" by (cases r1ecef) auto
  obtain s0 s1 s2 where s: "r2ecef = (s0, s1, s2)" by (cases r2ecef) auto
  define h where "h = calculate_heading_from_velocity v1ecef lat lon"
  define u v w where "u = s0 - a0" and "v = s1 - a1" and "w = s2 - a2"
  define e n up where "e = - sin lon * u + cos lon * v"
    and "n = - sin lat * (cos lon * u + sin lon * v) + cos lat * w"
    and "up = cos lat * (cos lon * u + sin lon * v) + sin lat * w"
  have enu: "twoecef2enu r1ecef r2ecef lat lon = (e, n, up)"
    by (simp add: a s Let_def e_def n_def up_def u_def v_def w_def)
  have 1: "(e * cos (- h) + n * sin (- h))\<^sup>2 + (- e * sin (- h) + n * cos (- h))\<^sup>2 = e\<^sup>2 + n\<^sup>2"
    using rot_norm_sq [of e "cos h" n "sin h"] by (simp add: sin_cos_sq)
  have 2: "e\<^sup>2 + n\<^sup>2 + up\<^sup>2 = u\<^sup>2 + v\<^sup>2 + w\<^sup>2"
    unfolding e_def n_def up_def by (rule enu_norm_sq) (rule sin_cos_sq)+
  have "fst (cockpitview r1ecef v1ecef r2ecef lat lon)
      = sqrt ((e * cos (- h) + n * sin (- h))\<^sup>2 + (- e * sin (- h) + n * cos (- h))\<^sup>2 + up\<^sup>2)"
    unfolding cockpitview_def enu h_def [symmetric] by (simp add: Let_def)
  also have "\<dots> = sqrt (u\<^sup>2 + v\<^sup>2 + w\<^sup>2)"
    by (simp only: 1 2)
  also have "\<dots> = norm3 (vsub r2ecef r1ecef)"
    by (simp add: a s u_def v_def w_def power2_eq_square)
  finally show ?thesis .
qed

lemma halfpi_eq: "pi * 0.5 = pi / 2"
  by simp

lemma sqrt_sq_sum_pos:
  fixes x y :: real
  assumes "0 < x"
  shows "sqrt (x\<^sup>2 + y\<^sup>2) = x * sqrt (1 + (y / x)\<^sup>2)"
proof -
  have "x\<^sup>2 + y\<^sup>2 = x\<^sup>2 * (1 + (y / x)\<^sup>2)"
    using assms by (simp add: field_simps power2_eq_square)
  then have "sqrt (x\<^sup>2 + y\<^sup>2) = sqrt (x\<^sup>2) * sqrt (1 + (y / x)\<^sup>2)"
    by (simp add: real_sqrt_mult)
  then show ?thesis using assms by simp
qed

lemma sqrt_sq_sum_neg:
  fixes x y :: real
  assumes "x < 0"
  shows "sqrt (x\<^sup>2 + y\<^sup>2) = - x * sqrt (1 + (y / x)\<^sup>2)"
proof -
  have "x\<^sup>2 + y\<^sup>2 = x\<^sup>2 * (1 + (y / x)\<^sup>2)"
    using assms by (simp add: field_simps power2_eq_square)
  then have "sqrt (x\<^sup>2 + y\<^sup>2) = sqrt (x\<^sup>2) * sqrt (1 + (y / x)\<^sup>2)"
    by (simp add: real_sqrt_mult)
  then show ?thesis using assms by simp
qed

lemma sqrt_one_plus_sq_pos: "0 < sqrt (1 + (t::real)\<^sup>2)"
  by (simp add: add_pos_nonneg)

lemma arctan2_polar:
  fixes x y :: real
  assumes "x \<noteq> 0 \<or> y \<noteq> 0"
  shows "sqrt (x\<^sup>2 + y\<^sup>2) * cos (arctan2 y x) = x \<and> sqrt (x\<^sup>2 + y\<^sup>2) * sin (arctan2 y x) = y"
proof -
  consider (pos) "0 < x" | (neg) "x < 0" | (up) "x = 0" "0 < y" | (down) "x = 0" "y < 0"
    using assms by fastforce
  then show ?thesis
  proof cases
    case pos
    have nz: "sqrt (1 + (y / x)\<^sup>2) \<noteq> 0"
      using sqrt_one_plus_sq_pos [of "y / x"] by simp
    have a: "arctan2 y x = arctan (y / x)"
      using pos by (simp add: arctan2_def)
    show ?thesis
      using pos nz by (simp add: a sqrt_sq_sum_pos cos_arctan sin_arctan)
  next
    case neg
    have nz: "sqrt (1 + (y / x)\<^sup>2) \<noteq> 0"
      using sqrt_one_plus_sq_pos [of "y / x"] by simp
    have c: "cos (arctan2 y x) = - cos (arctan (y / x))"
      using neg by (simp add: arctan2_def)
    have s: "sin (arctan2 y x) = - sin (arctan (y / x))"
      using neg by (simp add: arctan2_def)
    show ?thesis
      using neg nz by (simp add: c s sqrt_sq_sum_neg cos_arctan sin_arctan)
  next
    case up
    then show ?thesis by (simp add: arctan2_def)
  next
    case down
    then show ?thesis by (simp add: arctan2_def)
  qed
qed

lemma arctan2_zero_pos: "0 < x \<Longrightarrow> arctan2 0 x = 0"
  by (simp add: arctan2_def)

lemma look_straight_ahead:
  fixes ve vn k :: real
  assumes nz: "ve \<noteq> 0 \<or> vn \<noteq> 0" and k: "0 < k"
    and h: "h = arctan2 ve vn"
  shows "(k * ve) * cos (- h) + (k * vn) * sin (- h) = 0"
    and "0 < - (k * ve) * sin (- h) + (k * vn) * cos (- h)"
proof -
  define m where "m = sqrt (vn\<^sup>2 + ve\<^sup>2)"
  have p: "m * cos h = vn" "m * sin h = ve"
    using arctan2_polar [of vn ve] nz by (auto simp: m_def h)
  have mpos: "0 < m"
    unfolding m_def using nz
    by (metis add.commute not_sum_power2_lt_zero power2_less_eq_zero_iff real_sqrt_gt_0_iff sum_power2_gt_zero_iff zero_less_power2 linorder_neqE_linordered_idom)
  have "(k * ve) * cos (- h) + (k * vn) * sin (- h) = k * ((m * sin h) * cos h - (m * cos h) * sin h)"
    by (simp add: p algebra_simps)
  then show "(k * ve) * cos (- h) + (k * vn) * sin (- h) = 0" by simp
  have "- (k * ve) * sin (- h) + (k * vn) * cos (- h) = k * ((m * sin h) * sin h + (m * cos h) * cos h)"
    by (simp add: p algebra_simps)
  also have "\<dots> = k * m * (sin h * sin h + cos h * cos h)"
    by (simp only: algebra_simps)
  also have "\<dots> = k * m" by (simp only: sin_cos_sq mult_1_right)
  finally show "0 < - (k * ve) * sin (- h) + (k * vn) * cos (- h)"
    using k mpos by simp
qed

text \<open>
  C8. \<open>cockpitview\<close> turns the east and north components of the relative ENU vector
  by minus the observer's heading and keeps the up component; the look angle is the
  two-argument arctangent of the turned east and north components, the elevation that of
  up and the horizontal length of the turned pair, the range the length of the turned
  vector. A target whose horizontal ENU direction is that of the observer's horizontal
  velocity has look angle 0 degrees.
\<close>

theorem cockpitview_heading_relative:
  assumes enu: "twoecef2enu r1ecef r2ecef lat lon = (e, n, u)"
    and h: "h = calculate_heading_from_velocity v1ecef lat lon"
    and e': "e' = e * cos (- h) + n * sin (- h)"
    and n': "n' = - e * sin (- h) + n * cos (- h)"
  shows "rot3 (e, n, u) (- h) = (e', n', u)
       \<and> cockpitview r1ecef v1ecef r2ecef lat lon
           = (magnitude (e', n', u), degrees (arctan2 e' n'), degrees (arctan2 u (sqrt (e'\<^sup>2 + n'\<^sup>2))))
       \<and> (\<forall>ve vn vu k. ecef2enu v1ecef lat lon = (ve, vn, vu) \<and> (ve \<noteq> 0 \<or> vn \<noteq> 0)
              \<and> 0 < k \<and> e = k * ve \<and> n = k * vn
            \<longrightarrow> fst (snd (cockpitview r1ecef v1ecef r2ecef lat lon)) = 0)"
proof -
  have r: "rot3 (e, n, u) (- h) = (e', n', u)"
    by (simp add: e' n' Let_def algebra_simps)
  have c: "cockpitview r1ecef v1ecef r2ecef lat lon
           = (magnitude (e', n', u), degrees (arctan2 e' n'), degrees (arctan2 u (sqrt (e'\<^sup>2 + n'\<^sup>2))))"
    unfolding cockpitview_def enu h [symmetric] by (simp add: Let_def e' n')
  have l: "fst (snd (cockpitview r1ecef v1ecef r2ecef lat lon)) = 0"
    if v: "ecef2enu v1ecef lat lon = (ve, vn, vu)" and nz: "ve \<noteq> 0 \<or> vn \<noteq> 0"
      and k: "0 < k" and ek: "e = k * ve" and nk: "n = k * vn" for ve vn vu k
  proof -
    obtain a b d where v1: "v1ecef = (a, b, d)" by (cases v1ecef) auto
    have hv: "h = arctan2 ve vn"
      using v by (auto simp: h v1 Let_def)
    have "e' = 0" and "0 < n'"
      using look_straight_ahead [OF nz k hv] by (simp_all add: e' n' ek nk)
    then show ?thesis by (simp add: c arctan2_zero_pos degrees_def)
  qed
  from r c l show ?thesis by blast
qed

theorem cockpitview_heading_relative_witness:
  "cockpitview (0, 0, 0) (0, 0, 1) (0, 0, 2) 0 0 = (2, 0, 0)
   \<and> fst (snd (cockpitview (0, 0, 0) (0, 0, 1) (0, 0, 2) 0 0)) = 0"
proof -
  have enu: "twoecef2enu (0, 0, 0) (0, 0, 2) 0 0 = (0, 2, 0)" by (simp add: Let_def)
  have h: "0 = calculate_heading_from_velocity (0, 0, 1) 0 0" by (simp add: Let_def arctan2_def)
  have v: "ecef2enu (0, 0, 1) 0 0 = (0, 1, 0)" by (simp add: Let_def)
  note t = cockpitview_heading_relative [OF enu h, of 0 2]
  have 1: "cockpitview (0, 0, 0) (0, 0, 1) (0, 0, 2) 0 0 = (2, 0, 0)"
    using t by (simp add: arctan2_def degrees_def)
  have 2: "fst (snd (cockpitview (0, 0, 0) (0, 0, 1) (0, 0, 2) 0 0)) = 0"
    using t v by (auto simp: Let_def)
  from 1 2 show ?thesis by simp
qed

section \<open>Range, azimuth and elevation\<close>

text \<open>
  C1. In \<open>twoecef2razel\<close>, with \<open>(s, e, z)\<close> the relative position and
  \<open>(ds, de, dz)\<close> the relative velocity in the SEZ frame: when the horizontal length
  \<open>sqrt (s\<^sup>2 + e\<^sup>2)\<close> is below 1e-8 the elevation is the sign of \<open>z\<close> times 90 degrees
  and the azimuth comes from the velocity's horizontal components; otherwise the
  elevation is the arcsine of \<open>z\<close> over the length of the vector and the azimuth comes
  from the position's horizontal components. Both are returned in degrees.
\<close>

theorem twoecef2razel_singularity_rule:
  assumes rhosez: "rot2 (rot3 (vsub r2ecef r1ecef) (wrap_lon lon)) (pi / 2 - lat) = (s, e, z)"
    and drhosez: "rot2 (rot3 (vsub v2ecef v1ecef) (wrap_lon lon)) (pi / 2 - lat) = (ds, de, dz)"
    and res: "twoecef2razel r1ecef v1ecef r2ecef v2ecef lat lon = (rho, az, el)"
  shows "(sqrt (s\<^sup>2 + e\<^sup>2) < 1 / 10 ^ 8
            \<longrightarrow> el = sgn z * 90 \<and> az = degrees (arctan2 de (- ds)))
       \<and> (\<not> sqrt (s\<^sup>2 + e\<^sup>2) < 1 / 10 ^ 8
            \<longrightarrow> el = degrees (arcsin (z / norm3 (s, e, z))) \<and> az = degrees (arctan2 e (- s)))"
  using res unfolding twoecef2razel_def
  by (simp add: Let_def halfpi_eq rhosez drhosez degrees_def power2_eq_square split: if_splits)

theorem twoecef2razel_singularity_rule_witness:
  "snd (twoecef2razel (1, 0, 0) (0, 0, 0) (2, 0, 0) (0, 1, 0) 0 0) = (90, 90)
 \<and> snd (twoecef2razel (0, 0, 0) (0, 0, 0) (0, 0, 1) (0, 1, 0) 0 0) = (0, 0)"
proof -
  have w: "wrap_lon 0 = 0" by (simp add: wrap_lon_def)
  have d: "rot2 (rot3 (vsub (0, 1, 0) (0, 0, 0)) (wrap_lon 0)) (pi / 2 - 0) = (0, 1, 0)"
    by (simp add: w Let_def)
  have zenith: "rot2 (rot3 (vsub (2, 0, 0) (1, 0, 0)) (wrap_lon 0)) (pi / 2 - 0) = (0, 0, 1)"
    by (simp add: w Let_def)
  have north: "rot2 (rot3 (vsub (0, 0, 1) (0, 0, 0)) (wrap_lon 0)) (pi / 2 - 0) = (- 1, 0, 0)"
    by (simp add: w Let_def)
  obtain rho az el where r1: "twoecef2razel (1, 0, 0) (0, 0, 0) (2, 0, 0) (0, 1, 0) 0 0 = (rho, az, el)"
    by (cases "twoecef2razel (1, 0, 0) (0, 0, 0) (2, 0, 0) (0, 1, 0) 0 0") auto
  obtain rho' az' el' where r2: "twoecef2razel (0, 0, 0) (0, 0, 0) (0, 0, 1) (0, 1, 0) 0 0 = (rho', az', el')"
    by (cases "twoecef2razel (0, 0, 0) (0, 0, 0) (0, 0, 1) (0, 1, 0) 0 0") auto
  have 1: "az = 90 \<and> el = 90"
    using twoecef2razel_singularity_rule [OF zenith d r1] by (simp add: arctan2_def degrees_def)
  have 2: "az' = 0 \<and> el' = 0"
    using twoecef2razel_singularity_rule [OF north d r2] by (simp add: arctan2_def degrees_def)
  from 1 2 show ?thesis by (simp add: r1 r2)
qed

section \<open>Apparent length\<close>

lemma pair_indices_0: "pair_indices 0 = []"
  by (simp add: pair_indices_def)

lemma pair_indices_1: "pair_indices (Suc 0) = []"
  by (simp add: pair_indices_def)

lemma pair_loop_nil: "pair_loop [] r lat lon = initial_state"
  by (simp add: pair_loop_def pair_indices_0)

lemma pair_loop_single: "pair_loop [s] r lat lon = initial_state"
  by (simp add: pair_loop_def pair_indices_1)

lemma calculate_apparent_length_no_target:
  "calculate_apparent_length [] r_ac_ecef lat lon = Inr None"
  by (simp add: calculate_apparent_length_def pair_loop_nil initial_state_def enumerate_eq_zip)

text \<open>
  C3. With fewer than two targets \<open>calculate_apparent_length\<close> is to return the tuple of
  absent values and fail in no other way. With no target it does. With exactly one
  target the midpoint is still \<open>None\<close> when the scan for the satellite nearest the
  midpoint reads it, and the call raises \<open>TypeError\<close>.
\<close>

theorem calculate_apparent_length_single_target_raises:
  "calculate_apparent_length [s] r_ac_ecef lat lon = Inl TypeError"
  by (simp add: calculate_apparent_length_def pair_loop_single initial_state_def)

lemma set_pair_row: "set (map (\<lambda>j. (i, j)) [Suc i ..< n]) = {(i', j). i' = i \<and> i < j \<and> j < n}"
  by auto

lemma pair_prefix_props:
  "set (concat (map (\<lambda>i. map (\<lambda>j. (i, j)) [Suc i ..< n]) [0 ..< m])) = {(i, j). i < m \<and> i < j \<and> j < n}
   \<and> sorted_wrt before (concat (map (\<lambda>i. map (\<lambda>j. (i, j)) [Suc i ..< n]) [0 ..< m]))"
proof (induction m)
  case 0
  then show ?case by simp
next
  case (Suc m)
  let ?pre = "concat (map (\<lambda>i. map (\<lambda>j. (i, j)) [Suc i ..< n]) [0 ..< m])"
  let ?row = "map (\<lambda>j. (m, j)) [Suc m ..< n]"
  from Suc have s: "set ?pre = {(i, j). i < m \<and> i < j \<and> j < n}" and o: "sorted_wrt before ?pre"
    by simp_all
  have row: "sorted_wrt before ?row"
    by (simp add: sorted_wrt_map before_def)
  have cross: "\<forall>x\<in>set ?pre. \<forall>y\<in>set ?row. before x y"
    unfolding s by (auto simp: before_def)
  have 1: "set (?pre @ ?row) = {(i, j). i < Suc m \<and> i < j \<and> j < n}"
    unfolding set_append s by (auto simp: less_Suc_eq)
  have 2: "sorted_wrt before (?pre @ ?row)"
    unfolding sorted_wrt_append using o row cross by blast
  have e: "concat (map (\<lambda>i. map (\<lambda>j. (i, j)) [Suc i ..< n]) [0 ..< Suc m]) = ?pre @ ?row"
    by simp
  show ?case unfolding e using 1 2 by blast
qed

lemma set_pair_indices: "set (pair_indices n) = {(i, j). i < j \<and> j < n}"
  using pair_prefix_props [of n n] by (auto simp: pair_indices_def)

lemma sorted_pair_indices: "sorted_wrt before (pair_indices n)"
  using pair_prefix_props [of n n] by (simp add: pair_indices_def)


lemma furthest_pair_body:
  "furthest_satellites (pair_body sats r lat lon st (i, j)) =
     (let fs = furthest_satellites st;
          d = distance (position (sats ! i)) (position (sats ! j))
      in if d > furthest_distance fs
         then fs\<lparr>furthest_distance := d, sat1 := Some i, sat2 := Some j,
                 midpoint := Some (midpoint_of (position (sats ! i)) (position (sats ! j)))\<rparr>
         else fs)"
  by (simp add: pair_body_def Let_def)

lemma pair_body_keeps:
  assumes "pair_distance sats p \<le> furthest_distance (furthest_satellites st)"
  shows "furthest_satellites (pair_body sats r lat lon st p) = furthest_satellites st"
  using assms by (cases p) (simp add: furthest_pair_body pair_distance_def Let_def)

lemma pair_body_takes:
  assumes "furthest_distance (furthest_satellites st) < pair_distance sats p"
  shows "furthest_satellites (pair_body sats r lat lon st p)
         = (furthest_satellites st)\<lparr>furthest_distance := pair_distance sats p, sat1 := Some (fst p),
               sat2 := Some (snd p),
               midpoint := Some (midpoint_of (position (sats ! fst p)) (position (sats ! snd p)))\<rparr>"
  using assms by (cases p) (simp add: furthest_pair_body pair_distance_def Let_def)

lemma foldl_keeps:
  assumes "\<forall>p\<in>set ps. pair_distance sats p \<le> furthest_distance (furthest_satellites st)"
  shows "furthest_satellites (foldl (pair_body sats r lat lon) st ps) = furthest_satellites st"
  using assms
proof (induction ps arbitrary: st)
  case Nil
  then show ?case by simp
next
  case (Cons p ps)
  have k: "furthest_satellites (pair_body sats r lat lon st p) = furthest_satellites st"
    using Cons.prems by (simp add: pair_body_keeps)
  have "furthest_satellites (foldl (pair_body sats r lat lon) (pair_body sats r lat lon st p) ps)
        = furthest_satellites (pair_body sats r lat lon st p)"
    using Cons.prems by (intro Cons.IH) (simp add: k)
  then show ?case by (simp add: k)
qed

lemma foldl_below:
  assumes "\<forall>p\<in>set ps. pair_distance sats p < D"
    and "furthest_distance (furthest_satellites st) < D"
  shows "furthest_distance (furthest_satellites (foldl (pair_body sats r lat lon) st ps)) < D"
  using assms
proof (induction ps arbitrary: st)
  case Nil
  then show ?case by simp
next
  case (Cons p ps)
  have "furthest_distance (furthest_satellites (pair_body sats r lat lon st p)) < D"
    using Cons.prems by (cases p) (simp add: furthest_pair_body pair_distance_def Let_def)
  then show ?case using Cons by simp
qed

lemma midpoint_scan_ok:
  assumes "midpoint fs = Some m"
  shows "\<exists>c k. midpoint_scan xs (cl, fs) = Inr (c, fs\<lparr>midpoint_sat := k\<rparr>)"
  using assms
proof (induction xs arbitrary: cl fs)
  case Nil
  have "fs = fs\<lparr>midpoint_sat := midpoint_sat fs\<rparr>" by simp
  then show ?case by (metis midpoint_scan.simps(1))
next
  case (Cons x xs)
  obtain idx s where x: "x = (idx, s)" by (cases x) auto
  let ?d = "distance (position s) m"
  show ?case
  proof (cases "case cl of None \<Rightarrow> True | Some c \<Rightarrow> ?d < c")
    case True
    have "midpoint (fs\<lparr>midpoint_sat := idx\<rparr>) = Some m" using Cons.prems by simp
    from Cons.IH [OF this, of "Some ?d"] obtain c k
      where "midpoint_scan xs (Some ?d, fs\<lparr>midpoint_sat := idx\<rparr>) = Inr (c, fs\<lparr>midpoint_sat := idx, midpoint_sat := k\<rparr>)"
      by auto
    then show ?thesis using True Cons.prems by (auto simp: x Let_def)
  next
    case False
    from Cons.IH [OF Cons.prems, of cl] obtain c k
      where "midpoint_scan xs (cl, fs) = Inr (c, fs\<lparr>midpoint_sat := k\<rparr>)" by auto
    then show ?thesis using False Cons.prems by (auto simp: x Let_def)
  qed
qed


text \<open>
  C9, as amended. When the greatest distance between two targets is positive, the pair
  that \<open>calculate_apparent_length\<close> returns as the furthest pair is the first pair, in the
  order of the loops (ascending \<open>i\<close>, then ascending \<open>j > i\<close>), that attains it: every
  pair is at most as far apart as the pair \<open>(i, j)\<close>, every pair before it is strictly
  closer, and then \<open>sat1 = i\<close> and \<open>sat2 = j\<close>. A later pair at the same distance does not
  replace it.
\<close>

theorem furthest_pair_is_first_maximum:
  assumes ij: "i < j" "j < length sats"
    and pos: "0 < distance (position (sats ! i)) (position (sats ! j))"
    and mx: "\<forall>i' j'. i' < j' \<and> j' < length sats
               \<longrightarrow> distance (position (sats ! i')) (position (sats ! j'))
                    \<le> distance (position (sats ! i)) (position (sats ! j))"
    and first: "\<forall>i' j'. i' < j' \<and> j' < length sats \<and> (i' < i \<or> (i' = i \<and> j' < j))
               \<longrightarrow> distance (position (sats ! i')) (position (sats ! j'))
                    < distance (position (sats ! i)) (position (sats ! j))"
  shows "\<exists>le ln dd d1 d2 fs.
           calculate_apparent_length sats r_ac_ecef lat lon = Inr (Some (le, ln, dd, d1, d2, fs))
         \<and> sat1 fs = Some i \<and> sat2 fs = Some j
         \<and> furthest_distance fs = distance (position (sats ! i)) (position (sats ! j))"
proof -
  let ?n = "length sats"
  let ?D = "pair_distance sats (i, j)"
  let ?body = "pair_body sats r_ac_ecef lat lon"
  have D: "?D = distance (position (sats ! i)) (position (sats ! j))"
    by (simp add: pair_distance_def)
  have "(i, j) \<in> set (pair_indices ?n)"
    using ij by (simp add: set_pair_indices)
  then obtain xs ys where split: "pair_indices ?n = xs @ (i, j) # ys"
    by (meson split_list)
  have sorted: "sorted_wrt before (xs @ (i, j) # ys)"
    using sorted_pair_indices [of ?n] by (simp add: split)
  have mem: "fst p < snd p \<and> snd p < ?n" if "p \<in> set xs \<union> set ys" for p
  proof -
    from that have "p \<in> set (pair_indices ?n)" unfolding split by auto
    then have "p \<in> {(i, j). i < j \<and> j < ?n}" by (simp only: set_pair_indices)
    then show ?thesis by (cases p) simp
  qed
  have early: "\<forall>p\<in>set xs. pair_distance sats p < ?D"
  proof
    fix p assume p: "p \<in> set xs"
    then have "before p (i, j)" using sorted by (simp add: sorted_wrt_append)
    then have b: "fst p < i \<or> (fst p = i \<and> snd p < j)" by (simp add: before_def)
    have m: "fst p < snd p \<and> snd p < ?n" using mem [of p] p by simp
    show "pair_distance sats p < ?D"
      unfolding pair_distance_def fst_conv snd_conv
      using first [rule_format, of "fst p" "snd p"] b m by blast
  qed
  have late: "\<forall>p\<in>set ys. pair_distance sats p \<le> ?D"
  proof
    fix p assume p: "p \<in> set ys"
    have m: "fst p < snd p \<and> snd p < ?n" using mem [of p] p by simp
    show "pair_distance sats p \<le> ?D"
      unfolding pair_distance_def fst_conv snd_conv
      using mx [rule_format, of "fst p" "snd p"] m by blast
  qed
  define st1 where "st1 = foldl ?body initial_state xs"
  define st2 where "st2 = ?body st1 (i, j)"
  have "furthest_distance (furthest_satellites initial_state) < ?D"
    using pos by (simp add: initial_state_def D)
  then have below: "furthest_distance (furthest_satellites st1) < ?D"
    unfolding st1_def using early by (rule foldl_below [rotated])
  have take: "furthest_satellites st2
         = (furthest_satellites st1)\<lparr>furthest_distance := ?D, sat1 := Some i, sat2 := Some j,
               midpoint := Some (midpoint_of (position (sats ! i)) (position (sats ! j)))\<rparr>"
    unfolding st2_def using pair_body_takes [OF below, of r_ac_ecef lat lon] by simp
  have d2: "furthest_distance (furthest_satellites st2) = ?D"
    by (simp add: take)
  have "furthest_satellites (foldl ?body st2 ys) = furthest_satellites st2"
    by (rule foldl_keeps) (use late in \<open>simp only: d2\<close>)
  moreover have "pair_loop sats r_ac_ecef lat lon = foldl ?body st2 ys"
    by (simp add: pair_loop_def split st1_def st2_def)
  ultimately have loop: "furthest_satellites (pair_loop sats r_ac_ecef lat lon) = furthest_satellites st2"
    by simp
  define fs where "fs = furthest_satellites st2"
  have fs: "sat1 fs = Some i" "sat2 fs = Some j" "furthest_distance fs = ?D"
    "midpoint fs = Some (midpoint_of (position (sats ! i)) (position (sats ! j)))"
    by (simp_all add: fs_def take)
  obtain c k where scan: "midpoint_scan (enumerate 0 sats) (None, fs) = Inr (c, fs\<lparr>midpoint_sat := k\<rparr>)"
    using midpoint_scan_ok [OF fs(4)] by blast
  have "calculate_apparent_length sats r_ac_ecef lat lon =
        (case midpoint_scan (enumerate 0 sats) (None, fs) of
           Inl err \<Rightarrow> Inl err
         | Inr (closest_distance, fs') \<Rightarrow>
             (case (sat1 fs', sat2 fs') of
                (Some s1, Some s2) \<Rightarrow>
                  Inr (Some (max_length_degrees_ecef (pair_loop sats r_ac_ecef lat lon),
                             max_length_degrees_enu (pair_loop sats r_ac_ecef lat lon),
                             \<bar>distance (position (sats ! s1)) r_ac_ecef - distance (position (sats ! s2)) r_ac_ecef\<bar>,
                             distance (position (sats ! s1)) (position (sats ! midpoint_sat fs')),
                             distance (position (sats ! s2)) (position (sats ! midpoint_sat fs')), fs'))
              | _ \<Rightarrow> Inr None))"
    unfolding calculate_apparent_length_def Let_def loop fs_def [symmetric] ..
  also have "\<dots> = Inr (Some (max_length_degrees_ecef (pair_loop sats r_ac_ecef lat lon),
                             max_length_degrees_enu (pair_loop sats r_ac_ecef lat lon),
                             \<bar>distance (position (sats ! i)) r_ac_ecef - distance (position (sats ! j)) r_ac_ecef\<bar>,
                             distance (position (sats ! i)) (position (sats ! k)),
                             distance (position (sats ! j)) (position (sats ! k)), fs\<lparr>midpoint_sat := k\<rparr>))"
    by (simp add: scan fs)
  finally have res: "calculate_apparent_length sats r_ac_ecef lat lon = Inr (Some (max_length_degrees_ecef (pair_loop sats r_ac_ecef lat lon),
                             max_length_degrees_enu (pair_loop sats r_ac_ecef lat lon),
                             \<bar>distance (position (sats ! i)) r_ac_ecef - distance (position (sats ! j)) r_ac_ecef\<bar>,
                             distance (position (sats ! i)) (position (sats ! k)),
                             distance (position (sats ! j)) (position (sats ! k)), fs\<lparr>midpoint_sat := k\<rparr>))" .
  have "sat1 (fs\<lparr>midpoint_sat := k\<rparr>) = Some i \<and> sat2 (fs\<lparr>midpoint_sat := k\<rparr>) = Some j
      \<and> furthest_distance (fs\<lparr>midpoint_sat := k\<rparr>) = distance (position (sats ! i)) (position (sats ! j))"
    by (simp add: fs D)
  with res show ?thesis by blast
qed


lemma less_three_cases: "j < (3::nat) \<Longrightarrow> j = 0 \<or> j = 1 \<or> j = 2"
  by arith

theorem furthest_pair_is_first_maximum_witness:
  "\<exists>le ln dd d1 d2 fs.
     calculate_apparent_length
       [\<lparr>filename = ''a'', position = (1, 0, 0)\<rparr>, \<lparr>filename = ''b'', position = (0, 1, 0)\<rparr>,
        \<lparr>filename = ''c'', position = (0, 0, 1)\<rparr>] (0, 0, 0) 0 0
       = Inr (Some (le, ln, dd, d1, d2, fs))
     \<and> sat1 fs = Some 0 \<and> sat2 fs = Some 1 \<and> furthest_distance fs = sqrt 2"
proof -
  let ?sats = "[\<lparr>filename = ''a'', position = (1, 0, 0)\<rparr>, \<lparr>filename = ''b'', position = (0, 1, 0)\<rparr>,
        \<lparr>filename = ''c'', position = (0, 0, 1)\<rparr>]"
  have d: "distance (position (?sats ! i')) (position (?sats ! j')) = sqrt 2"
    if "i' < j'" "j' < length ?sats" for i' j'
  proof -
    from that have "j' < 3" by simp
    then have "j' = 0 \<or> j' = 1 \<or> j' = 2" by (rule less_three_cases)
    moreover from that have "i' = 0 \<or> i' = 1 \<or> i' = 2" by (intro less_three_cases) simp
    ultimately show ?thesis using that(1) by auto
  qed
  have d01: "distance (position (?sats ! 0)) (position (?sats ! 1)) = sqrt 2"
    by simp
  have 1: "(0::nat) < 1" and 2: "1 < length ?sats" by simp_all
  have pos: "0 < distance (position (?sats ! 0)) (position (?sats ! 1))"
    by (simp only: d01) simp
  have mx: "\<forall>i' j'. i' < j' \<and> j' < length ?sats
               \<longrightarrow> distance (position (?sats ! i')) (position (?sats ! j'))
                    \<le> distance (position (?sats ! 0)) (position (?sats ! 1))"
    using d d01 by simp
  have first: "\<forall>i' j'. i' < j' \<and> j' < length ?sats \<and> (i' < 0 \<or> (i' = 0 \<and> j' < 1))
               \<longrightarrow> distance (position (?sats ! i')) (position (?sats ! j'))
                    < distance (position (?sats ! 0)) (position (?sats ! 1))"
    by auto
  show ?thesis
    using furthest_pair_is_first_maximum [OF 1 2 pos mx first, of "(0, 0, 0)" 0 0]
    by (simp only: d01)
qed

lemma pair_indices_3: "pair_indices 3 = [(0, 1), (0, 2), (1, 2)]"
  by (simp add: pair_indices_def numeral_3_eq_3)

text \<open>
  C9 as stated fails when the greatest distance is 0. Three targets at one point: the
  three pairs are all at the greatest distance, 0, which is not greater than the initial
  value of \<open>distance\<close>, so the loop retains no pair, not the first one.
\<close>

theorem coincident_targets_retain_no_pair:
  "distance (0, 0, 0) (0, 0, 0) = 0
   \<and> sat1 (furthest_satellites (pair_loop
        [\<lparr>filename = ''a'', position = (0, 0, 0)\<rparr>, \<lparr>filename = ''b'', position = (0, 0, 0)\<rparr>,
         \<lparr>filename = ''c'', position = (0, 0, 0)\<rparr>] (0, 0, 0) 0 0)) = None
   \<and> sat2 (furthest_satellites (pair_loop
        [\<lparr>filename = ''a'', position = (0, 0, 0)\<rparr>, \<lparr>filename = ''b'', position = (0, 0, 0)\<rparr>,
         \<lparr>filename = ''c'', position = (0, 0, 0)\<rparr>] (0, 0, 0) 0 0)) = None
   \<and> calculate_apparent_length
        [\<lparr>filename = ''a'', position = (0, 0, 0)\<rparr>, \<lparr>filename = ''b'', position = (0, 0, 0)\<rparr>,
         \<lparr>filename = ''c'', position = (0, 0, 0)\<rparr>] (0, 0, 0) 0 0 = Inl TypeError"
proof -
  let ?sats = "[\<lparr>filename = ''a'', position = (0, 0, 0)\<rparr>, \<lparr>filename = ''b'', position = (0, 0, 0)\<rparr>,
         \<lparr>filename = ''c'', position = (0, 0, 0)\<rparr>]"
  have z: "\<forall>p\<in>set (pair_indices (length ?sats)). pair_distance ?sats p
             \<le> furthest_distance (furthest_satellites initial_state)"
  proof -
    have len: "length ?sats = 3" by simp
    show ?thesis
      unfolding len pair_indices_3 by (simp add: pair_distance_def initial_state_def)
  qed
  have loop: "furthest_satellites (pair_loop ?sats (0, 0, 0) 0 0) = furthest_satellites initial_state"
    unfolding pair_loop_def by (rule foldl_keeps) (rule z)
  have 1: "sat1 (furthest_satellites (pair_loop ?sats (0, 0, 0) 0 0)) = None"
    by (simp add: loop initial_state_def)
  have 2: "sat2 (furthest_satellites (pair_loop ?sats (0, 0, 0) 0 0)) = None"
    by (simp add: loop initial_state_def)
  have 3: "calculate_apparent_length ?sats (0, 0, 0) 0 0 = Inl TypeError"
    by (simp add: calculate_apparent_length_def Let_def loop initial_state_def)
  from 1 2 3 show ?thesis by simp
qed

section \<open>Orbital basis and grazing angle\<close>

lemma magnitude_sq: "(magnitude v)\<^sup>2 = dot_product v v"
  by (cases v) (simp add: power2_eq_square)

lemma magnitude_nonneg: "0 \<le> magnitude v"
  by (cases v) simp

lemma magnitude_eq_0: "magnitude v = 0 \<longleftrightarrow> v = (0, 0, 0)"
proof (cases v)
  case (fields a b c)
  have "a\<^sup>2 + b\<^sup>2 + c\<^sup>2 = 0 \<longleftrightarrow> a = 0 \<and> b = 0 \<and> c = 0"
    by (simp add: sum_power2_eq_zero_iff add_nonneg_eq_0_iff)
  then show ?thesis by (simp add: fields)
qed

lemma magnitude_one: "dot_product v v = 1 \<Longrightarrow> magnitude v = 1"
  by (cases v) (simp add: power2_eq_square)

lemma normalize_unit:
  assumes "v \<noteq> (0, 0, 0)"
  shows "\<exists>u. normalize v = Inr u \<and> dot_product u u = 1
           \<and> (\<forall>x. dot_product u x = dot_product v x / magnitude v)"
proof (cases v)
  case (fields a b c)
  let ?m = "magnitude v"
  have nz: "?m \<noteq> 0" using assms by (simp add: magnitude_eq_0)
  have sq: "?m * ?m = a * a + b * b + c * c"
    using magnitude_sq [of v] by (simp add: fields power2_eq_square)
  have n: "normalize v = Inr (a / ?m, b / ?m, c / ?m)"
    using nz by (simp add: fields Let_def)
  have "dot_product (a / ?m, b / ?m, c / ?m) (a / ?m, b / ?m, c / ?m) = (a * a + b * b + c * c) / (?m * ?m)"
    by (simp add: add_divide_distrib)
  also have "\<dots> = 1" using nz by (simp add: sq [symmetric])
  finally have u: "dot_product (a / ?m, b / ?m, c / ?m) (a / ?m, b / ?m, c / ?m) = 1" .
  have d: "dot_product (a / ?m, b / ?m, c / ?m) x = dot_product v x / ?m" for x
    by (cases x) (simp add: fields add_divide_distrib)
  from n u d show ?thesis by blast
qed

lemma dot_cross_right: "dot_product (cross_product r v) v = 0"
  by (cases r; cases v) (simp add: algebra_simps)

lemma dot_cross_self_left: "dot_product (cross_product t n) t = 0"
  by (cases t; cases n) (simp add: algebra_simps)

lemma dot_commute: "dot_product a b = dot_product b a"
  by (cases a; cases b) (simp add: algebra_simps)

lemma lagrange:
  "dot_product (cross_product t n) (cross_product t n)
   = dot_product t t * dot_product n n - (dot_product t n)\<^sup>2"
  by (cases t; cases n) (simp add: algebra_simps power2_eq_square)

lemma gram:
  "(dot_product (cross_product t n) x)\<^sup>2
   = dot_product x x * (dot_product t t * dot_product n n - (dot_product t n)\<^sup>2)
     - (dot_product t x)\<^sup>2 * dot_product n n
     + 2 * dot_product t x * dot_product n x * dot_product t n
     - (dot_product n x)\<^sup>2 * dot_product t t"
  by (cases t; cases n; cases x) (simp add: algebra_simps power2_eq_square)


lemma dot_cross_self_right: "dot_product (cross_product t n) n = 0"
  by (cases t; cases n) (simp add: algebra_simps)

lemma cross_parallel:
  assumes "cross_product r v = (0, 0, 0)" and "r \<noteq> (0, 0, 0)"
  shows "\<exists>k. v = scale k r"
proof -
  obtain a b c where r: "r = (a, b, c)" by (cases r) auto
  obtain x y z where v: "v = (x, y, z)" by (cases v) auto
  from assms(1) have e: "b * z = c * y" "c * x = a * z" "a * y = b * x"
    by (simp_all add: r v)
  from assms(2) consider "a \<noteq> 0" | "b \<noteq> 0" | "c \<noteq> 0"
    by (auto simp: r)
  then show ?thesis
  proof cases
    case 1
    then have "v = scale (x / a) r"
      using e by (simp add: r v field_simps)
    then show ?thesis ..
  next
    case 2
    then have "v = scale (y / b) r"
      using e by (simp add: r v field_simps)
    then show ?thesis ..
  next
    case 3
    then have "v = scale (z / c) r"
      using e by (simp add: r v field_simps)
    then show ?thesis ..
  qed
qed

lemma cross_nonzero:
  assumes "r \<noteq> (0, 0, 0)" and "\<not> parallel r v"
  shows "cross_product r v \<noteq> (0, 0, 0)"
  using assms cross_parallel [of r v] by (auto simp: parallel_def)

lemma cross_nonzero_right: "cross_product r v \<noteq> (0, 0, 0) \<Longrightarrow> v \<noteq> (0, 0, 0)"
  by (cases r) auto

lemma ntw_rows:
  assumes "cross_product r v \<noteq> (0, 0, 0)"
  shows "\<exists>n t. normalize (cross_product r v) = Inr n \<and> normalize v = Inr t
           \<and> ecef_to_ntw_matrix r v = Inr (n, t, cross_product t n)
           \<and> dot_product n n = 1 \<and> dot_product t t = 1 \<and> dot_product n t = 0"
proof -
  have vz: "v \<noteq> (0, 0, 0)" using assms by (rule cross_nonzero_right)
  obtain n where n: "normalize (cross_product r v) = Inr n" "dot_product n n = 1"
    and nd: "\<And>x. dot_product n x = dot_product (cross_product r v) x / magnitude (cross_product r v)"
    using normalize_unit [OF assms] by blast
  obtain t where t: "normalize v = Inr t" "dot_product t t = 1"
    and td: "\<And>x. dot_product t x = dot_product v x / magnitude v"
    using normalize_unit [OF vz] by blast
  have "dot_product t n = dot_product v n / magnitude v" by (rule td)
  also have "dot_product v n = dot_product n v" by (rule dot_commute)
  also have "dot_product n v = dot_product (cross_product r v) v / magnitude (cross_product r v)"
    by (rule nd)
  finally have "dot_product t n = 0" by (simp add: dot_cross_right)
  then have o: "dot_product n t = 0" by (simp add: dot_commute)
  have m: "ecef_to_ntw_matrix r v = Inr (n, t, cross_product t n)"
    by (simp add: ecef_to_ntw_matrix_def n t)
  from n t o m show ?thesis by blast
qed

text \<open>
  C6. For a position and a velocity that are nonzero and not parallel,
  \<open>ecef_to_ntw_matrix\<close> returns three rows, the normalized cross product of position and
  velocity, the normalized velocity, and the cross product of the second with the first,
  taken as it is; each row has length 1 and any two rows are orthogonal.
\<close>

theorem ecef_to_ntw_matrix_orthonormal:
  assumes "r \<noteq> (0, 0, 0)" and "v \<noteq> (0, 0, 0)" and "\<not> parallel r v"
  shows "\<exists>n t w. ecef_to_ntw_matrix r v = Inr (n, t, w)
           \<and> normalize (cross_product r v) = Inr n \<and> normalize v = Inr t \<and> w = cross_product t n
           \<and> magnitude n = 1 \<and> magnitude t = 1 \<and> magnitude w = 1
           \<and> dot_product n t = 0 \<and> dot_product n w = 0 \<and> dot_product t w = 0"
proof -
  have "cross_product r v \<noteq> (0, 0, 0)" using assms(1,3) by (rule cross_nonzero)
  then obtain n t where nt: "normalize (cross_product r v) = Inr n" "normalize v = Inr t"
      "ecef_to_ntw_matrix r v = Inr (n, t, cross_product t n)"
    and u: "dot_product n n = 1" "dot_product t t = 1" and o: "dot_product n t = 0"
    using ntw_rows by blast
  let ?w = "cross_product t n"
  have "dot_product ?w ?w = 1"
    by (simp add: lagrange u o dot_commute [of t n])
  then have w1: "magnitude ?w = 1" by (rule magnitude_one)
  have nw: "dot_product n ?w = 0" by (simp add: dot_commute [of n] dot_cross_self_right)
  have tw: "dot_product t ?w = 0" by (simp add: dot_commute [of t] dot_cross_self_left)
  from nt u o w1 nw tw show ?thesis by (simp add: magnitude_one)
qed

theorem ecef_to_ntw_matrix_orthonormal_witness:
  "\<exists>n t w. ecef_to_ntw_matrix (1, 0, 0) (0, 1, 0) = Inr (n, t, w)
           \<and> normalize (cross_product (1, 0, 0) (0, 1, 0)) = Inr n \<and> normalize (0, 1, 0) = Inr t
           \<and> w = cross_product t n
           \<and> magnitude n = 1 \<and> magnitude t = 1 \<and> magnitude w = 1
           \<and> dot_product n t = 0 \<and> dot_product n w = 0 \<and> dot_product t w = 0"
proof -
  have 1: "((1, 0, 0) :: vec3) \<noteq> (0, 0, 0)" and 2: "((0, 1, 0) :: vec3) \<noteq> (0, 0, 0)" by simp_all
  have 3: "\<not> parallel (1, 0, 0) (0, 1, 0)" by (simp add: parallel_def)
  show ?thesis by (rule ecef_to_ntw_matrix_orthonormal [OF 1 2 3])
qed

lemma ntw_value: "ecef_to_ntw_matrix (1, 0, 0) (0, 1, 0) = Inr ((0, 0, 1), (0, 1, 0), (1, 0, 0))"
  by (simp add: ecef_to_ntw_matrix_def Let_def)


lemma transform_keeps_length:
  assumes "dot_product n n = 1" and "dot_product t t = 1" and "dot_product n t = 0"
  shows "dot_product (transform_vector (n, t, cross_product t n) x)
                     (transform_vector (n, t, cross_product t n) x) = dot_product x x"
proof -
  have g: "(dot_product (cross_product t n) x)\<^sup>2
           = dot_product x x - (dot_product t x)\<^sup>2 - (dot_product n x)\<^sup>2"
    by (simp add: gram assms dot_commute [of t n])
  have "dot_product (transform_vector (n, t, cross_product t n) x)
                    (transform_vector (n, t, cross_product t n) x)
        = (dot_product n x)\<^sup>2 + (dot_product t x)\<^sup>2 + (dot_product (cross_product t n) x)\<^sup>2"
    by (simp add: power2_eq_square)
  also have "\<dots> = dot_product x x" by (simp only: g)
  finally show ?thesis .
qed

lemma transform_nonzero:
  assumes "dot_product n n = 1" and "dot_product t t = 1" and "dot_product n t = 0"
    and "x \<noteq> (0, 0, 0)"
  shows "magnitude (transform_vector (n, t, cross_product t n) x) \<noteq> 0"
proof
  assume "magnitude (transform_vector (n, t, cross_product t n) x) = 0"
  then have "(magnitude (transform_vector (n, t, cross_product t n) x))\<^sup>2 = 0" by simp
  then have "dot_product x x = 0"
    by (simp only: magnitude_sq transform_keeps_length [OF assms(1-3)])
  then have "(magnitude x)\<^sup>2 = 0" by (simp only: magnitude_sq)
  then have "x = (0, 0, 0)" by (simp add: magnitude_eq_0)
  with assms(4) show False by simp
qed

text \<open>
  C5, as amended. When the satellite's position and velocity are nonzero and not
  parallel and the positions of the sun and of the aircraft are nonzero,
  \<open>calculate_sun_grazing_angle\<close> returns \<open>(180 - \<theta>) / 2\<close>, where \<open>\<theta>\<close> is, in degrees, the
  arccosine of the normalized dot product, clamped to \<open>[-1, 1]\<close>, of the two positions
  in the satellite's NTW basis; \<open>\<theta> = 0\<close> gives 90 degrees and \<open>\<theta> = 180\<close> gives 0 degrees.
\<close>

theorem sun_grazing_angle_half_supplement:
  assumes sat: "r_satellite \<noteq> (0, 0, 0)" "v_satellite \<noteq> (0, 0, 0)" "\<not> parallel r_satellite v_satellite"
    and sun: "r_sun_ecef \<noteq> (0, 0, 0)" and ac: "r_ac_ecef \<noteq> (0, 0, 0)"
  shows "\<exists>ntw theta.
           ecef_to_ntw_matrix r_satellite v_satellite = Inr ntw
         \<and> theta = 180 * arccos (max (- 1) (min 1
                   (dot_product (transform_vector ntw r_sun_ecef) (transform_vector ntw r_ac_ecef)
                    / (magnitude (transform_vector ntw r_sun_ecef)
                       * magnitude (transform_vector ntw r_ac_ecef))))) / pi
         \<and> calculate_sun_grazing_angle r_ac_ecef v_ac_ecef r_sun_ecef v_sun_ecef r_satellite v_satellite
             = Inr ((180 - theta) / 2)
         \<and> (theta = 0 \<longrightarrow>
               calculate_sun_grazing_angle r_ac_ecef v_ac_ecef r_sun_ecef v_sun_ecef r_satellite v_satellite
               = Inr 90)
         \<and> (theta = 180 \<longrightarrow>
               calculate_sun_grazing_angle r_ac_ecef v_ac_ecef r_sun_ecef v_sun_ecef r_satellite v_satellite
               = Inr 0)"
proof -
  have "cross_product r_satellite v_satellite \<noteq> (0, 0, 0)"
    using sat(1,3) by (rule cross_nonzero)
  then obtain n t where m: "ecef_to_ntw_matrix r_satellite v_satellite = Inr (n, t, cross_product t n)"
    and u: "dot_product n n = 1" "dot_product t t = 1" "dot_product n t = 0"
    using ntw_rows by blast
  let ?m = "(n, t, cross_product t n)"
  let ?S = "transform_vector ?m r_sun_ecef"
  let ?A = "transform_vector ?m r_ac_ecef"
  define theta where "theta = 180 * arccos (max (- 1) (min 1
                   (dot_product ?S ?A / (magnitude ?S * magnitude ?A)))) / pi"
  have nz: "magnitude ?S * magnitude ?A \<noteq> 0"
    using transform_nonzero [OF u sun] transform_nonzero [OF u ac] by simp
  have a: "angle_between_vectors ?S ?A = Inr theta"
    unfolding angle_between_vectors_def theta_def Let_def using nz by (simp only: if_False)
  have g: "calculate_sun_grazing_angle r_ac_ecef v_ac_ecef r_sun_ecef v_sun_ecef r_satellite v_satellite
           = Inr ((180 - theta) / 2)"
    unfolding calculate_sun_grazing_angle_def m Let_def by (simp only: sum.case a)
  have "ecef_to_ntw_matrix r_satellite v_satellite = Inr ?m
      \<and> theta = 180 * arccos (max (- 1) (min 1
                   (dot_product (transform_vector ?m r_sun_ecef) (transform_vector ?m r_ac_ecef)
                    / (magnitude (transform_vector ?m r_sun_ecef)
                       * magnitude (transform_vector ?m r_ac_ecef))))) / pi
      \<and> calculate_sun_grazing_angle r_ac_ecef v_ac_ecef r_sun_ecef v_sun_ecef r_satellite v_satellite
             = Inr ((180 - theta) / 2)
      \<and> (theta = 0 \<longrightarrow>
               calculate_sun_grazing_angle r_ac_ecef v_ac_ecef r_sun_ecef v_sun_ecef r_satellite v_satellite
               = Inr 90)
      \<and> (theta = 180 \<longrightarrow>
               calculate_sun_grazing_angle r_ac_ecef v_ac_ecef r_sun_ecef v_sun_ecef r_satellite v_satellite
               = Inr 0)"
    using m g theta_def by simp
  then show ?thesis by blast
qed

theorem sun_grazing_angle_half_supplement_witness:
  "calculate_sun_grazing_angle (1, 0, 0) (0, 0, 0) (1, 0, 0) (0, 0, 0) (1, 0, 0) (0, 1, 0) = Inr 90
 \<and> calculate_sun_grazing_angle (- 1, 0, 0) (0, 0, 0) (1, 0, 0) (0, 0, 0) (1, 0, 0) (0, 1, 0) = Inr 0"
proof -
  have 1: "((1, 0, 0) :: vec3) \<noteq> (0, 0, 0)" and 2: "((0, 1, 0) :: vec3) \<noteq> (0, 0, 0)"
    and 4: "((- 1, 0, 0) :: vec3) \<noteq> (0, 0, 0)" by simp_all
  have 3: "\<not> parallel (1, 0, 0) (0, 1, 0)" by (simp add: parallel_def)
  have same: "calculate_sun_grazing_angle (1, 0, 0) (0, 0, 0) (1, 0, 0) (0, 0, 0) (1, 0, 0) (0, 1, 0) = Inr 90"
    using sun_grazing_angle_half_supplement [OF 1 2 3 1 1, of "(0, 0, 0)" "(0, 0, 0)"]
    by (auto simp: ntw_value)
  have opposite: "calculate_sun_grazing_angle (- 1, 0, 0) (0, 0, 0) (1, 0, 0) (0, 0, 0) (1, 0, 0) (0, 1, 0) = Inr 0"
    using sun_grazing_angle_half_supplement [OF 1 2 3 1 4, of "(0, 0, 0)" "(0, 0, 0)"]
    by (auto simp: ntw_value)
  from same opposite show ?thesis by simp
qed

text \<open>
  C5 as stated, for every satellite position and velocity, fails: a satellite at rest in
  the Earth-fixed frame has velocity zero, the cross product of position and velocity is
  zero, and \<open>normalize\<close> divides by its magnitude.
\<close>

theorem sun_grazing_angle_raises_for_stationary_satellite:
  "calculate_sun_grazing_angle (6378, 0, 0) (0, 0, 0) (0, 150000000, 0) (0, 0, 0) (42164, 0, 0) (0, 0, 0)
   = Inl ZeroDivisionError"
  by (simp add: calculate_sun_grazing_angle_def ecef_to_ntw_matrix_def Let_def)

section \<open>The ENU form against the SEZ form\<close>

lemma sin_wrap_lon: "sin (wrap_lon lon) = sin lon"
proof -
  have "sin (lon - 2 * pi) = sin lon"
    using sin_periodic [of "lon - 2 * pi"] by simp
  then show ?thesis by (simp add: wrap_lon_def)
qed

lemma cos_wrap_lon: "cos (wrap_lon lon) = cos lon"
proof -
  have "cos (lon - 2 * pi) = cos lon"
    using cos_periodic [of "lon - 2 * pi"] by simp
  then show ?thesis by (simp add: wrap_lon_def)
qed

lemma sez_of_enu:
  assumes "twoecef2enu r1 r2 lat lon = (e, n, u)"
  shows "rot2 (rot3 (vsub r2 r1) (wrap_lon lon)) (pi / 2 - lat) = (- n, e, u)"
proof -
  obtain a0 a1 a2 where a: "r1 = (a0, a1, a2)" by (cases r1) auto
  obtain s0 s1 s2 where s: "r2 = (s0, s1, s2)" by (cases r2) auto
  have c: "cos (pi / 2 - lat) = sin lat" by (simp add: sin_cos_eq)
  have d: "sin (pi / 2 - lat) = cos lat" by (simp add: cos_sin_eq)
  show ?thesis
    using assms by (auto simp: a s Let_def sin_wrap_lon cos_wrap_lon c d algebra_simps)
qed

lemma arcsin_of_arctan:
  fixes r u :: real
  assumes "0 < r"
  shows "arcsin (u / sqrt (r\<^sup>2 + u\<^sup>2)) = arctan (u / r)"
proof -
  let ?a = "arctan (u / r)"
  have nz: "sqrt (1 + (u / r)\<^sup>2) \<noteq> 0"
    using sqrt_one_plus_sq_pos [of "u / r"] by simp
  have "sin ?a = (u / r) / sqrt (1 + (u / r)\<^sup>2)" by (rule sin_arctan)
  also have "\<dots> = u / (r * sqrt (1 + (u / r)\<^sup>2))" by simp
  also have "\<dots> = u / sqrt (r\<^sup>2 + u\<^sup>2)" by (simp only: sqrt_sq_sum_pos [OF assms])
  finally have "arcsin (u / sqrt (r\<^sup>2 + u\<^sup>2)) = arcsin (sin ?a)" by simp
  also have "\<dots> = ?a"
    using arctan_lbound [of "u / r"] arctan_ubound [of "u / r"] by (intro arcsin_sin) simp_all
  finally show ?thesis .
qed

lemma arctan2_range: "- pi < arctan2 y x \<and> arctan2 y x \<le> pi"
proof -
  have b: "- (pi / 2) < arctan (y / x)" "arctan (y / x) < pi / 2"
    by (rule arctan_lbound, rule arctan_ubound)
  consider (pos) "0 < x" | (negu) "x < 0" "0 \<le> y" | (negd) "x < 0" "y < 0" | (zero) "x = 0"
    by linarith
  then show ?thesis
  proof cases
    case pos
    then show ?thesis using b pi_gt_zero by (simp add: arctan2_def)
  next
    case negu
    then have "y / x \<le> 0" by (simp add: divide_nonneg_neg)
    then have "arctan (y / x) \<le> 0" using arctan_monotone' [of "y / x" 0] by simp
    then show ?thesis using negu b by (simp add: arctan2_def)
  next
    case negd
    then have "0 < y / x" by (simp add: divide_neg_neg)
    then have "0 < arctan (y / x)" using arctan_monotone [of 0 "y / x"] by simp
    then show ?thesis using negd b by (simp add: arctan2_def)
  next
    case zero
    have h: "- (pi / 2) \<le> pi" using pi_gt_zero by linarith
    from zero show ?thesis by (auto simp: arctan2_def h)
  qed
qed

lemma py_mod_turn:
  assumes "- pi < x" and "x \<le> pi"
  shows "py_mod x (2 * pi) = (if x < 0 then x + 2 * pi else x)"
proof (cases "x < 0")
  case True
  have "\<lfloor>x / (2 * pi)\<rfloor> = - 1"
  proof (rule floor_unique)
    show "of_int (- 1) \<le> x / (2 * pi)"
      using assms pi_gt_zero by (simp add: field_simps)
    show "x / (2 * pi) < of_int (- 1) + 1"
      using True pi_gt_zero by (simp add: field_simps)
  qed
  then show ?thesis using True by (simp add: py_mod_def)
next
  case False
  have "\<lfloor>x / (2 * pi)\<rfloor> = 0"
  proof (rule floor_unique)
    show "of_int 0 \<le> x / (2 * pi)"
      using False pi_gt_zero by simp
    show "x / (2 * pi) < of_int 0 + 1"
      using assms pi_gt_zero by (simp add: field_simps)
  qed
  then show ?thesis using False by (simp add: py_mod_def)
qed

lemma degrees_turn: "degrees (x + 2 * pi) = degrees x + 360"
  by (simp add: degrees_def field_simps)

lemma degrees_neg_iff: "degrees x < 0 \<longleftrightarrow> x < 0"
  by (simp add: degrees_def divide_less_0_iff mult_less_0_iff)


lemma sqrt_not_small:
  fixes x :: real
  assumes "1 / 10 ^ 16 \<le> x"
  shows "\<not> sqrt x < 1 / 10 ^ 8"
proof -
  have "sqrt ((1 / 10 ^ 8)\<^sup>2) \<le> sqrt x"
    using assms by (intro real_sqrt_le_mono) (simp add: power2_eq_square)
  then have "1 / 10 ^ 8 \<le> sqrt x" by simp
  then show ?thesis by simp
qed

lemma floor_sq:
  fixes e :: real
  assumes "e = 0 \<or> 1 / 1000 \<le> \<bar>e\<bar>"
  shows "e = 0 \<or> 1 / 10 ^ 6 \<le> e * e"
proof (cases "e = 0")
  case True
  then show ?thesis by simp
next
  case False
  with assms have "1 / 1000 \<le> \<bar>e\<bar>" by simp
  then have "(1 / 1000) * (1 / 1000) \<le> \<bar>e\<bar> * \<bar>e\<bar>"
    by (intro mult_mono) simp_all
  then show ?thesis by (simp add: abs_mult_self_eq)
qed

lemma aer_of_enu:
  assumes "twoecef2enu r1ecef r2ecef lat lon = (e, n, u)"
    and "e = 0 \<or> 1 / 1000 \<le> \<bar>e\<bar>" and "n = 0 \<or> 1 / 1000 \<le> \<bar>n\<bar>"
  shows "twoecef2aer r1ecef r2ecef lat lon
         = (hypot (hypot e n) (if \<bar>u\<bar> < 1 / 1000 then 0 else u),
            degrees (py_mod (arctan2 e n) (2 * pi)),
            degrees (arctan2 (if \<bar>u\<bar> < 1 / 1000 then 0 else u) (hypot e n)))"
proof -
  have keep: "(if \<bar>e\<bar> < 1 / 1000 then 0 else e) = e" "(if \<bar>n\<bar> < 1 / 1000 then 0 else n) = n"
    using assms(2,3) by auto
  show ?thesis
    by (simp only: twoecef2aer_def assms(1) prod.case Let_def keep)
qed

lemma horizontal_not_small:
  fixes e n :: real
  assumes "e = 0 \<or> 1 / 1000 \<le> \<bar>e\<bar>" and "n = 0 \<or> 1 / 1000 \<le> \<bar>n\<bar>"
    and "e \<noteq> 0 \<or> n \<noteq> 0"
  shows "1 / 10 ^ 6 \<le> e * e + n * n"
proof (cases "e = 0")
  case True
  with assms(3) have "n \<noteq> 0" by simp
  with floor_sq [OF assms(2)] have "1 / 10 ^ 6 \<le> n * n" by simp
  moreover have "0 \<le> e * e" by simp
  ultimately show ?thesis by linarith
next
  case False
  with floor_sq [OF assms(1)] have "1 / 10 ^ 6 \<le> e * e" by simp
  moreover have "0 \<le> n * n" by simp
  ultimately show ?thesis by linarith
qed

lemma razel_regular:
  assumes enu: "twoecef2enu r1ecef r2ecef lat lon = (e, n, u)"
    and big: "1 / 10 ^ 6 \<le> e * e + n * n"
  shows "twoecef2razel r1ecef v1ecef r2ecef v2ecef lat lon
           = (norm3 (vsub r2ecef r1ecef), arctan2 e n * (180 / pi),
              arcsin (u / sqrt (n * n + e * e + u * u)) * (180 / pi))"
proof -
  have notsmall: "\<not> sqrt (n * n + e * e) < 1 / 10 ^ 8"
    using big by (intro sqrt_not_small) (simp add: add.commute)
  have sez: "rot2 (rot3 (vsub r2ecef r1ecef) (wrap_lon lon)) (pi / 2 - lat) = (- n, e, u)"
    using enu by (rule sez_of_enu)
  show ?thesis
    unfolding twoecef2razel_def Let_def halfpi_eq sez using notsmall by simp
qed

lemma razel_zenith:
  assumes enu: "twoecef2enu r1ecef r2ecef lat lon = (0, 0, u)"
  shows "snd (snd (twoecef2razel r1ecef v1ecef r2ecef v2ecef lat lon)) = sgn u * 90"
proof -
  have sez: "rot2 (rot3 (vsub r2ecef r1ecef) (wrap_lon lon)) (pi / 2 - lat) = (- 0, 0, u)"
    using enu by (rule sez_of_enu)
  show ?thesis
    unfolding twoecef2razel_def Let_def halfpi_eq sez by simp
qed

lemma arctan2_vertical: "degrees (arctan2 u 0) = sgn u * 90"
  by (simp add: arctan2_def degrees_def sgn_if)

lemma azimuth_wrapped:
  "degrees (py_mod (arctan2 e n) (2 * pi))
     = (if arctan2 e n * (180 / pi) < 0 then arctan2 e n * (180 / pi) + 360
        else arctan2 e n * (180 / pi))"
  using arctan2_range [of e n] degrees_neg_iff [of "arctan2 e n"] degrees_turn [of "arctan2 e n"]
  by (simp add: py_mod_turn degrees_def)

lemma elevation_regular:
  fixes e n u :: real
  assumes big: "1 / 10 ^ 6 \<le> e * e + n * n"
  shows "arcsin (u / sqrt (n * n + e * e + u * u)) = arctan2 u (hypot e n)"
proof -
  define r where "r = hypot e n"
  have rpos: "0 < r"
    unfolding r_def hypot_def using big by (simp add: real_sqrt_gt_0_iff)
  have r2: "r\<^sup>2 = e * e + n * n"
    unfolding r_def hypot_def using big by simp
  have "n * n + e * e + u * u = r\<^sup>2 + u\<^sup>2" by (simp only: r2) (simp add: power2_eq_square)
  then have "arcsin (u / sqrt (n * n + e * e + u * u)) = arctan (u / r)"
    by (simp only: arcsin_of_arctan [OF rpos])
  then show ?thesis using rpos by (simp add: arctan2_def r_def [symmetric])
qed

text \<open>
  C4, as amended. When each ENU component of the target relative to the observer is
  either 0 or at least 1e-3 in magnitude, the elevation of \<open>twoecef2aer\<close> equals that of
  \<open>twoecef2razel\<close>, at the zenith and the nadir too. When the east and the north
  components are each either 0 or at least 1e-3 in magnitude and not both 0, whatever the
  up component, the azimuths are equal modulo 360 degrees: \<open>twoecef2aer\<close> returns the
  azimuth of \<open>twoecef2razel\<close> brought into \<open>[0, 360)\<close>.
\<close>

theorem aer_agrees_with_razel_above_noise_floor:
  assumes enu: "twoecef2enu r1ecef r2ecef lat lon = (e, n, u)"
    and aer: "twoecef2aer r1ecef r2ecef lat lon = (rng_a, az_a, el_a)"
    and razel: "twoecef2razel r1ecef v1ecef r2ecef v2ecef lat lon = (rng_r, az_r, el_r)"
  shows "((e = 0 \<or> 1 / 1000 \<le> \<bar>e\<bar>) \<and> (n = 0 \<or> 1 / 1000 \<le> \<bar>n\<bar>) \<and> (u = 0 \<or> 1 / 1000 \<le> \<bar>u\<bar>)
            \<longrightarrow> el_a = el_r)
       \<and> ((e = 0 \<or> 1 / 1000 \<le> \<bar>e\<bar>) \<and> (n = 0 \<or> 1 / 1000 \<le> \<bar>n\<bar>) \<and> (e \<noteq> 0 \<or> n \<noteq> 0)
            \<longrightarrow> az_a = (if az_r < 0 then az_r + 360 else az_r))"
proof (intro conjI impI)
  assume h: "(e = 0 \<or> 1 / 1000 \<le> \<bar>e\<bar>) \<and> (n = 0 \<or> 1 / 1000 \<le> \<bar>n\<bar>) \<and> (u = 0 \<or> 1 / 1000 \<le> \<bar>u\<bar>)"
  then have ne: "e = 0 \<or> 1 / 1000 \<le> \<bar>e\<bar>" and nn: "n = 0 \<or> 1 / 1000 \<le> \<bar>n\<bar>"
    and nu: "u = 0 \<or> 1 / 1000 \<le> \<bar>u\<bar>" by simp_all
  have ku: "(if \<bar>u\<bar> < 1 / 1000 then 0 else u) = u" using nu by auto
  have a: "el_a = degrees (arctan2 u (hypot e n))"
    using trans [OF aer [symmetric] aer_of_enu [OF enu ne nn]] unfolding ku by simp
  show "el_a = el_r"
  proof (cases "e = 0 \<and> n = 0")
    case True
    then have enu0: "twoecef2enu r1ecef r2ecef lat lon = (0, 0, u)" using enu by simp
    have "el_r = sgn u * 90"
      using razel_zenith [OF enu0, of v1ecef v2ecef] by (simp add: razel)
    moreover have "el_a = sgn u * 90"
      using True by (simp add: a hypot_def arctan2_vertical)
    ultimately show ?thesis by simp
  next
    case False
    then have "e \<noteq> 0 \<or> n \<noteq> 0" by simp
    then have big: "1 / 10 ^ 6 \<le> e * e + n * n" by (rule horizontal_not_small [OF ne nn])
    have "el_r = arcsin (u / sqrt (n * n + e * e + u * u)) * (180 / pi)"
      using razel razel_regular [OF enu big, of v1ecef v2ecef] by simp
    then show ?thesis
      by (simp only: a elevation_regular [OF big] degrees_def)
  qed
next
  assume h: "(e = 0 \<or> 1 / 1000 \<le> \<bar>e\<bar>) \<and> (n = 0 \<or> 1 / 1000 \<le> \<bar>n\<bar>) \<and> (e \<noteq> 0 \<or> n \<noteq> 0)"
  then have ne: "e = 0 \<or> 1 / 1000 \<le> \<bar>e\<bar>" and nn: "n = 0 \<or> 1 / 1000 \<le> \<bar>n\<bar>"
    and hz: "e \<noteq> 0 \<or> n \<noteq> 0" by simp_all
  have big: "1 / 10 ^ 6 \<le> e * e + n * n" by (rule horizontal_not_small [OF ne nn hz])
  have a: "az_a = degrees (py_mod (arctan2 e n) (2 * pi))"
    using trans [OF aer [symmetric] aer_of_enu [OF enu ne nn]] by simp
  have z: "az_r = arctan2 e n * (180 / pi)"
    using razel razel_regular [OF enu big, of v1ecef v2ecef] by simp
  show "az_a = (if az_r < 0 then az_r + 360 else az_r)"
    by (simp only: a z azimuth_wrapped)
qed

theorem aer_agrees_with_razel_above_noise_floor_witness:
  "snd (twoecef2razel (0, 0, 0) (0, 0, 0) (0, - 1, 0) (0, 0, 0) 0 0) = (- 90, 0)
 \<and> snd (twoecef2aer (0, 0, 0) (0, - 1, 0) 0 0) = (270, 0)
 \<and> snd (snd (twoecef2razel (0, 0, 0) (0, 0, 0) (1, 0, 0) (0, 0, 0) 0 0)) = 90
 \<and> snd (snd (twoecef2aer (0, 0, 0) (1, 0, 0) 0 0)) = 90"
proof -
  have w: "wrap_lon 0 = 0" by (simp add: wrap_lon_def)
  have enu: "twoecef2enu (0, 0, 0) (0, - 1, 0) 0 0 = (- 1, 0, 0)" by (simp add: Let_def)
  have razel: "twoecef2razel (0, 0, 0) (0, 0, 0) (0, - 1, 0) (0, 0, 0) 0 0 = (1, - 90, 0)"
    by (simp add: twoecef2razel_def Let_def w arctan2_def)
  obtain rng az el where aer: "twoecef2aer (0, 0, 0) (0, - 1, 0) 0 0 = (rng, az, el)"
    by (cases "twoecef2aer (0, 0, 0) (0, - 1, 0) 0 0") auto
  have west: "el = 0 \<and> az = 270"
    using aer_agrees_with_razel_above_noise_floor [OF enu aer razel] by simp
  have enu': "twoecef2enu (0, 0, 0) (1, 0, 0) 0 0 = (0, 0, 1)" by (simp add: Let_def)
  have razel': "twoecef2razel (0, 0, 0) (0, 0, 0) (1, 0, 0) (0, 0, 0) 0 0 = (1, 0, 90)"
    by (simp add: twoecef2razel_def Let_def w arctan2_def)
  obtain rng' az' el' where aer': "twoecef2aer (0, 0, 0) (1, 0, 0) 0 0 = (rng', az', el')"
    by (cases "twoecef2aer (0, 0, 0) (1, 0, 0) 0 0") auto
  have zenith: "el' = 90"
    using aer_agrees_with_razel_above_noise_floor [OF enu' aer' razel'] by simp
  from west zenith show ?thesis by (simp add: razel aer razel' aer')
qed

text \<open>
  C4 as stated fails below the noise floor of \<open>twoecef2aer\<close>: a target 0.5 m east and
  0.5 m north of the observer has azimuth 45 degrees in \<open>twoecef2razel\<close>, and azimuth 0
  in \<open>twoecef2aer\<close>, which has set both components to 0.
\<close>

theorem aer_zeroes_small_components_razel_does_not:
  "fst (snd (twoecef2aer (0, 0, 0) (0, 1 / 2000, 1 / 2000) 0 0)) = 0
 \<and> fst (snd (twoecef2razel (0, 0, 0) (0, 0, 0) (0, 1 / 2000, 1 / 2000) (0, 0, 0) 0 0)) = 45
 \<and> \<not> \<bar>fst (snd (twoecef2aer (0, 0, 0) (0, 1 / 2000, 1 / 2000) 0 0))
       - fst (snd (twoecef2razel (0, 0, 0) (0, 0, 0) (0, 1 / 2000, 1 / 2000) (0, 0, 0) 0 0))\<bar> \<le> 1 / 10 ^ 6"
proof -
  have a: "fst (snd (twoecef2aer (0, 0, 0) (0, 1 / 2000, 1 / 2000) 0 0)) = 0"
    by (simp add: twoecef2aer_def Let_def hypot_def arctan2_def py_mod_def degrees_def)
  have w: "wrap_lon 0 = 0" by (simp add: wrap_lon_def)
  have sez: "rot2 (rot3 (vsub (0, 1 / 2000, 1 / 2000) (0, 0, 0)) 0) (pi / 2 - 0) = (- (1 / 2000), 1 / 2000, 0)"
    by (simp add: Let_def)
  have "\<not> sqrt (- (1 / 2000) * - (1 / 2000) + 1 / 2000 * (1 / 2000)) < (1 / 10 ^ 8 :: real)"
    by (rule sqrt_not_small) simp
  then have ns: "(sqrt (- (1 / 2000) * - (1 / 2000) + 1 / 2000 * (1 / 2000)) < (0.00000001 :: real)) = False"
    by simp
  have at: "arctan2 (1 / 2000) (1 / 2000) = pi / 4"
    by (simp add: arctan2_def arctan_one)
  have "fst (snd (twoecef2razel (0, 0, 0) (0, 0, 0) (0, 1 / 2000, 1 / 2000) (0, 0, 0) 0 0))
        = arctan2 (1 / 2000) (1 / 2000) * (180 / pi)"
    by (simp only: twoecef2razel_def Let_def halfpi_eq w sez fst_conv snd_conv ns if_False minus_minus)
  then have z: "fst (snd (twoecef2razel (0, 0, 0) (0, 0, 0) (0, 1 / 2000, 1 / 2000) (0, 0, 0) 0 0)) = 45"
    by (simp add: at)
  show ?thesis by (simp add: a z)
qed

end
